theory Spec2Isabelle
  imports Complex_Main "HOL-Library.Sublist"
begin

section \<open>Python strings and list primitives\<close>

text \<open>
  A Python \<^verbatim>\<open>str\<close> is a sequence of Unicode code points and \<^verbatim>\<open>len\<close> counts code
  points, so a string is modelled as a list of code points. \<open>ustr\<close> embeds an ASCII
  literal; the pictographs of the source are written by their code point.
\<close>

type_synonym pystr = "nat list"

definition ustr :: "string \<Rightarrow> pystr" where
  "ustr s = map of_char s"

text \<open>
  \<^verbatim>\<open>sub in s\<close> for strings: \<open>sub\<close> occurs at some offset of \<open>s\<close>.
\<close>

fun py_in :: "pystr \<Rightarrow> pystr \<Rightarrow> bool" where
  "py_in sub [] = (sub = [])"
| "py_in sub (c # cs) = (take (length sub) (c # cs) = sub \<or> py_in sub cs)"

text \<open>
  \<^verbatim>\<open>s.split(sep)\<close> for a non-empty separator (every separator of the source is a
  non-empty literal): the pieces between the non-overlapping occurrences of \<open>sep\<close>,
  scanned from the left. \<open>acc\<close> holds the current piece, reversed.
\<close>

fun py_split_from :: "pystr \<Rightarrow> pystr \<Rightarrow> pystr \<Rightarrow> pystr list" where
  "py_split_from sep acc [] = [rev acc]"
| "py_split_from sep acc (c # cs) =
     (if take (length sep) (c # cs) = sep
      then rev acc # py_split_from sep [] (drop (length sep - 1) cs)
      else py_split_from sep (c # acc) cs)"

definition py_split :: "pystr \<Rightarrow> pystr \<Rightarrow> pystr list" where
  "py_split sep s = py_split_from sep [] s"

text \<open>
  \<^verbatim>\<open>xs[i]\<close> for a non-negative literal index: \<open>None\<close> stands for IndexError.
\<close>

definition py_index :: "'a list \<Rightarrow> nat \<Rightarrow> 'a option" where
  "py_index xs i = (if i < length xs then Some (xs ! i) else None)"

text \<open>
  \<^verbatim>\<open>xs[:k]\<close>: a negative bound counts from the end of the list.
\<close>

definition py_slice_to :: "int \<Rightarrow> 'a list \<Rightarrow> 'a list" where
  "py_slice_to k xs =
     (if 0 \<le> k then take (nat k) xs else take (length xs - nat (- k)) xs)"

text \<open>
  Truthiness of an optional string (\<^verbatim>\<open>if asin\<close>): neither \<^verbatim>\<open>None\<close> nor empty.
\<close>

definition truthy :: "pystr option \<Rightarrow> bool" where
  "truthy v = (case v of None \<Rightarrow> False | Some s \<Rightarrow> s \<noteq> [])"

section \<open>Products\<close>

text \<open>
  A product is a Python dict. Each key the code reads is a field; \<open>None\<close> is an
  absent key (or a key holding \<^verbatim>\<open>None\<close>, which \<^verbatim>\<open>dict.get\<close> does not tell apart).
  The first seven keys come from the search page, the others from the detail page.
\<close>

record product =
  title :: "pystr option"
  url :: "pystr option"
  asin :: "pystr option"
  price :: "pystr option"
  image_url :: "pystr option"
  rating :: "pystr option"
  search_rank :: "int option"
  description :: "pystr option"
  features :: "pystr list option"
  images :: "pystr list option"
  reviews_count :: "pystr option"
  availability :: "pystr option"
  category :: "pystr option"

section \<open>Product extraction\<close>

text \<open>
  The catalogue is reached over HTTP and its pages are parsed by an HTML library; both
  are outside the program. A result container of a search page is given by the values
  the extractor reads from it: the title text, the resolved link, price, image and rating
  (each possibly missing), the \<^verbatim>\<open>data-asin\<close> attribute, and the rank (\<open>None\<close> when
  computing it raises, which the extractor catches and answers with \<^verbatim>\<open>None\<close>).
\<close>

record container =
  c_title :: "pystr option"
  c_href :: "pystr option"
  c_price :: "pystr option"
  c_image :: "pystr option"
  c_rating :: "pystr option"
  c_asin :: "pystr option"
  c_rank :: "int option"

definition extract_product_from_search :: "container \<Rightarrow> product option" where
  "extract_product_from_search c =
     (if truthy (c_title c) \<and> truthy (c_href c) \<and> truthy (c_asin c) then
        (case c_rank c of
           None \<Rightarrow> None
         | Some r \<Rightarrow>
             Some \<lparr>title = c_title c, url = c_href c, asin = c_asin c, price = c_price c,
                   image_url = c_image c, rating = c_rating c, search_rank = Some r,
                   description = None, features = None, images = None,
                   reviews_count = None, availability = None, category = None\<rparr>)
      else None)"

text \<open>
  One search request either fails (any exception of the request or of the parser, which
  \<^verbatim>\<open>_search_amazon_products\<close> turns into the empty list) or gives the containers of the
  page, in page order. The catalogue maps a search term to what its request gives.
\<close>

datatype search_reply = Search_Failed | Search_Page "container list"

definition search_amazon_products :: "(pystr \<Rightarrow> search_reply) \<Rightarrow> pystr \<Rightarrow> int \<Rightarrow> product list" where
  "search_amazon_products catalog search_term max_results =
     (case catalog search_term of
        Search_Failed \<Rightarrow> []
      | Search_Page containers \<Rightarrow>
          List.map_filter extract_product_from_search (py_slice_to max_results containers))"

text \<open>
  \<^verbatim>\<open>_remove_duplicate_products\<close>: the loop over the products with the set of the asins
  seen so far. A product without asin, or with an empty one, is dropped.
\<close>

fun dedup_loop :: "pystr set \<Rightarrow> product list \<Rightarrow> product list" where
  "dedup_loop seen_asins [] = []"
| "dedup_loop seen_asins (p # ps) =
     (case asin p of
        None \<Rightarrow> dedup_loop seen_asins ps
      | Some a \<Rightarrow>
          if a \<noteq> [] \<and> a \<notin> seen_asins then p # dedup_loop (insert a seen_asins) ps
          else dedup_loop seen_asins ps)"

definition remove_duplicate_products :: "product list \<Rightarrow> product list" where
  "remove_duplicate_products products = dedup_loop {} products"

text \<open>
  The table \<^verbatim>\<open>self.trending_categories\<close>, and its lookup with the default
  \<^verbatim>\<open>['best sellers']\<close>.
\<close>

definition trending_categories :: "pystr \<Rightarrow> pystr list option" where
  "trending_categories = map_of
     [(ustr ''electronics'',
         [ustr ''best sellers electronics'', ustr ''new releases electronics'',
          ustr ''movers and shakers electronics'']),
      (ustr ''home'',
         [ustr ''best sellers home kitchen'', ustr ''new releases home'',
          ustr ''trending home decor'']),
      (ustr ''fashion'',
         [ustr ''best sellers clothing'', ustr ''trending fashion accessories'',
          ustr ''new releases shoes'']),
      (ustr ''health'',
         [ustr ''best sellers health personal care'', ustr ''trending supplements'',
          ustr ''new releases beauty'']),
      (ustr ''books'',
         [ustr ''best sellers books'', ustr ''new releases kindle books'',
          ustr ''trending audiobooks'']),
      (ustr ''sports'',
         [ustr ''best sellers sports outdoors'', ustr ''trending fitness equipment'',
          ustr ''new releases sports''])]"

definition search_terms :: "pystr \<Rightarrow> pystr list" where
  "search_terms c =
     (case trending_categories c of None \<Rightarrow> [ustr ''best sellers''] | Some ts \<Rightarrow> ts)"

text \<open>
  The loop of \<^verbatim>\<open>get_trending_products\<close> over the search terms: it stops as soon as
  \<^verbatim>\<open>max_products\<close> products are collected, and asks each term for
  \<^verbatim>\<open>max_products // len(search_terms)\<close> results (floor division, as \<open>div\<close> on \<open>int\<close>);
  \<open>n\<close> is \<^verbatim>\<open>len(search_terms)\<close>, which is never 0. The pauses between the requests
  change no value.
\<close>

fun collect_products ::
  "(pystr \<Rightarrow> search_reply) \<Rightarrow> int \<Rightarrow> nat \<Rightarrow> pystr list \<Rightarrow> product list \<Rightarrow> product list" where
  "collect_products catalog max_products n [] products = products"
| "collect_products catalog max_products n (t # ts) products =
     (if max_products \<le> int (length products) then products
      else collect_products catalog max_products n ts
             (products @ search_amazon_products catalog t (max_products div int n)))"

definition accumulated_products :: "(pystr \<Rightarrow> search_reply) \<Rightarrow> pystr \<Rightarrow> int \<Rightarrow> product list" where
  "accumulated_products catalog c max_products =
     collect_products catalog max_products (length (search_terms c)) (search_terms c) []"

definition get_trending_products :: "(pystr \<Rightarrow> search_reply) \<Rightarrow> pystr \<Rightarrow> int \<Rightarrow> product list" where
  "get_trending_products catalog c max_products =
     py_slice_to max_products (remove_duplicate_products (accumulated_products catalog c max_products))"

text \<open>
  The allow-list of the request validator (\<^verbatim>\<open>validate_categories\<close>).
\<close>

definition valid_categories :: "pystr list" where
  "valid_categories =
     [ustr ''electronics'', ustr ''home'', ustr ''fashion'', ustr ''health'', ustr ''books'',
      ustr ''sports'']"

section \<open>Content generation\<close>

subsection \<open>\<^verbatim>\<open>create_affiliate_link\<close>\<close>

text \<open>
  \<^verbatim>\<open>url.split(marker)[1].split('/')[0].split('?')[0]\<close>; \<open>None\<close> is the IndexError
  that the function's \<^verbatim>\<open>except\<close> turns into "return the url unchanged".
\<close>

definition extract_asin :: "pystr \<Rightarrow> pystr \<Rightarrow> pystr option" where
  "extract_asin marker amazon_url =
     Option.bind (py_index (py_split marker amazon_url) 1) (\<lambda>a.
     Option.bind (py_index (py_split (ustr ''/'') a) 0) (\<lambda>b.
       py_index (py_split (ustr ''?'') b) 0))"

text \<open>
  The first argument is \<^verbatim>\<open>self.amazon_tag\<close>.
\<close>

definition create_affiliate_link :: "pystr \<Rightarrow> pystr \<Rightarrow> pystr" where
  "create_affiliate_link amazon_tag amazon_url =
     (if py_in (ustr ''/dp/'') amazon_url then
        (case extract_asin (ustr ''/dp/'') amazon_url of
           None \<Rightarrow> amazon_url
         | Some a \<Rightarrow> ustr ''https://www.amazon.com/dp/'' @ a @ ustr ''?tag='' @ amazon_tag)
      else if py_in (ustr ''/gp/product/'') amazon_url then
        (case extract_asin (ustr ''/gp/product/'') amazon_url of
           None \<Rightarrow> amazon_url
         | Some a \<Rightarrow> ustr ''https://www.amazon.com/dp/'' @ a @ ustr ''?tag='' @ amazon_tag)
      else amazon_url)"

subsection \<open>\<^verbatim>\<open>_generate_pin_title\<close>\<close>

text \<open>
  The five prefixes start with the code points U+1F525, U+2B50, U+1F4AF, U+1F3AF and
  U+2728.
\<close>

definition engaging_prefixes :: "pystr list" where
  "engaging_prefixes =
     [128293 # ustr '' TRENDING: '',
      11088 # ustr '' TOP RATED: '',
      128175 # ustr '' MUST-HAVE: '',
      127919 # ustr '' BEST SELLER: '',
      10024 # ustr '' AMAZING: '']"

text \<open>
  \<^verbatim>\<open>random.choice\<close> returns the element at some index below 5; the index drawn is the
  parameter \<open>pick\<close>, read modulo 5.
\<close>

definition generate_pin_title :: "nat \<Rightarrow> product \<Rightarrow> pystr" where
  "generate_pin_title pick p =
     (let t0 = (case title p of None \<Rightarrow> ustr ''Amazing Product'' | Some t \<Rightarrow> t);
          t1 = (if 100 < length t0 then take 97 t0 @ ustr ''...'' else t0)
      in if length t1 < 80 then (engaging_prefixes ! (pick mod 5)) @ t1 else t1)"

subsection \<open>\<^verbatim>\<open>_generate_pin_description\<close>, \<^verbatim>\<open>_get_best_image\<close>, \<^verbatim>\<open>generate_pin_content\<close>\<close>

text \<open>
  The table \<^verbatim>\<open>self.category_hashtags\<close>; an unknown category gets
  \<^verbatim>\<open>['shopping', 'deals']\<close>.
\<close>

definition category_hashtags :: "pystr \<Rightarrow> pystr list option" where
  "category_hashtags = map_of
     [(ustr ''electronics'',
         [ustr ''tech'', ustr ''gadgets'', ustr ''electronics'', ustr ''innovation'',
          ustr ''deals'', ustr ''amazon'', ustr ''shopping'']),
      (ustr ''home'',
         [ustr ''home'', ustr ''homedecor'', ustr ''interior'', ustr ''lifestyle'',
          ustr ''design'', ustr ''homeimprovement'']),
      (ustr ''fashion'',
         [ustr ''fashion'', ustr ''style'', ustr ''outfit'', ustr ''shopping'',
          ustr ''trendy'', ustr ''accessories'']),
      (ustr ''health'',
         [ustr ''health'', ustr ''wellness'', ustr ''selfcare'', ustr ''fitness'',
          ustr ''lifestyle'', ustr ''beauty'']),
      (ustr ''books'',
         [ustr ''books'', ustr ''reading'', ustr ''bookworm'', ustr ''education'',
          ustr ''learning'', ustr ''kindle'']),
      (ustr ''sports'',
         [ustr ''sports'', ustr ''fitness'', ustr ''outdoor'', ustr ''active'',
          ustr ''exercise'', ustr ''workout''])]"

text \<open>
  \<^verbatim>\<open>sep.join(parts)\<close>.
\<close>

fun py_join :: "pystr \<Rightarrow> pystr list \<Rightarrow> pystr" where
  "py_join sep [] = []"
| "py_join sep [x] = x"
| "py_join sep (x # y # ys) = x @ sep @ py_join sep (y # ys)"

text \<open>
  The description is the list \<^verbatim>\<open>parts\<close> joined by newlines (code point 10): the
  description cut at 150 characters, the price line (U+1F4B0), the rating line (U+2B50),
  the features header (U+2728) with at most two bullets (U+2022) cut at 50 characters,
  the hashtags, and the disclosure (U+1F4E2). A missing or empty value adds no part.
\<close>

definition generate_pin_description :: "product \<Rightarrow> pystr \<Rightarrow> pystr" where
  "generate_pin_description p c =
     (let parts1 = (case description p of
                      None \<Rightarrow> []
                    | Some d \<Rightarrow> if d \<noteq> [] then [take 150 d] else []);
          parts2 = (case price p of
                      None \<Rightarrow> []
                    | Some s \<Rightarrow> if s \<noteq> [] then [128176 # ustr '' Price: '' @ s] else []);
          parts3 = (case rating p of
                      None \<Rightarrow> []
                    | Some s \<Rightarrow> if s \<noteq> [] then [11088 # ustr '' Rating: '' @ s] else []);
          parts4 = (case features p of
                      None \<Rightarrow> []
                    | Some fs \<Rightarrow>
                        if fs \<noteq> []
                        then (10024 # ustr '' Features:'')
                               # map (\<lambda>f. 8226 # ustr '' '' @ take 50 f) (take 2 fs)
                        else []);
          hashtags = (case category_hashtags c of
                        None \<Rightarrow> [ustr ''shopping'', ustr ''deals'']
                      | Some hs \<Rightarrow> hs);
          hashtag_string = py_join (ustr '' '') (map (\<lambda>tag. ustr ''#'' @ tag) (take 8 hashtags))
      in py_join [10]
           (parts1 @ parts2 @ parts3 @ parts4
            @ [10 # hashtag_string,
               [10, 128226] @ ustr '' This pin contains affiliate links. I may earn a commission at no extra cost to you.'']))"

text \<open>
  The extractor sets the key \<^verbatim>\<open>image_url\<close> of every product, to \<^verbatim>\<open>None\<close> when the page
  shows no image, so the default of \<^verbatim>\<open>product.get('image_url', '')\<close> is never used and
  the value, possibly \<^verbatim>\<open>None\<close>, is returned.
\<close>

definition get_best_image :: "product \<Rightarrow> pystr option" where
  "get_best_image p =
     (case images p of
        Some (i # rest) \<Rightarrow> Some i
      | _ \<Rightarrow> image_url p)"

text \<open>
  \<^verbatim>\<open>generate_pin_content\<close> reads \<^verbatim>\<open>product['url']\<close>: \<open>None\<close> is the KeyError of a product
  without that key.
\<close>

record pin_content =
  pin_title :: pystr
  pin_description :: pystr
  pin_image_url :: "pystr option"
  affiliate_link :: pystr

definition generate_pin_content :: "pystr \<Rightarrow> nat \<Rightarrow> product \<Rightarrow> pystr \<Rightarrow> pin_content option" where
  "generate_pin_content amazon_tag pick p c =
     (case url p of
        None \<Rightarrow> None
      | Some u \<Rightarrow>
          Some \<lparr>pin_title = generate_pin_title pick p,
                pin_description = generate_pin_description p c,
                pin_image_url = get_best_image p,
                affiliate_link = create_affiliate_link amazon_tag u\<rparr>)"

section \<open>The publishing client\<close>

text \<open>
  The platform is reached over HTTP. What a request gives is a parameter: a failure (any
  exception, which both functions catch), or a status code with the decoded body. A
  board is a dict; \<open>None\<close> is an absent key. The body of a created pin is a JSON object,
  kept as the list of its members.
\<close>

record board =
  board_id :: "pystr option"
  board_name :: "pystr option"

datatype boards_reply = Boards_Failed | Boards_Response nat "board list"

definition get_pinterest_boards :: "boards_reply \<Rightarrow> board list" where
  "get_pinterest_boards reply =
     (case reply of
        Boards_Failed \<Rightarrow> []
      | Boards_Response status_code items \<Rightarrow> if status_code = 200 then items else [])"

type_synonym pin_info = "(pystr \<times> pystr) list"

datatype pin_reply = Pin_Failed | Pin_Response nat pin_info

definition create_pinterest_pin :: "pin_reply \<Rightarrow> pin_info option" where
  "create_pinterest_pin reply =
     (case reply of
        Pin_Failed \<Rightarrow> None
      | Pin_Response status_code info \<Rightarrow> if status_code = 201 then Some info else None)"

section \<open>One category: \<^verbatim>\<open>run_complete_automation\<close>\<close>

text \<open>
  Everything outside the program that one call of \<^verbatim>\<open>run_complete_automation\<close> meets:
  the answer to the boards request, the catalogue, and for the product at position \<open>i\<close>
  of the loop the detail page of its url (\<open>None\<close> when \<^verbatim>\<open>get_detailed_product_info\<close>
  returns \<^verbatim>\<open>None\<close>), the index \<^verbatim>\<open>random.choice\<close> draws for its title, and the answer to
  the request that creates its pin.
\<close>

record world =
  boards_reply :: boards_reply
  catalog :: "pystr \<Rightarrow> search_reply"
  detail_reply :: "nat \<Rightarrow> pystr \<Rightarrow> product option"
  draw :: "nat \<Rightarrow> nat"
  pin_reply :: "nat \<Rightarrow> pystr \<Rightarrow> pin_content \<Rightarrow> pin_reply"

text \<open>
  \<^verbatim>\<open>product.update(detailed_info)\<close>: every key of the detail page replaces the
  product's.
\<close>

definition dict_update :: "product \<Rightarrow> product \<Rightarrow> product" where
  "dict_update p d =
     (let upd = (\<lambda>new old. case new of None \<Rightarrow> old | Some v \<Rightarrow> Some v);
          updl = (\<lambda>new old. case new of None \<Rightarrow> old | Some v \<Rightarrow> Some v);
          updi = (\<lambda>new old. case new of None \<Rightarrow> old | Some v \<Rightarrow> Some v)
      in \<lparr>title = upd (title d) (title p), url = upd (url d) (url p),
          asin = upd (asin d) (asin p), price = upd (price d) (price p),
          image_url = upd (image_url d) (image_url p), rating = upd (rating d) (rating p),
          search_rank = updi (search_rank d) (search_rank p),
          description = upd (description d) (description p),
          features = updl (features d) (features p), images = updl (images d) (images p),
          reviews_count = upd (reviews_count d) (reviews_count p),
          availability = upd (availability d) (availability p),
          category = upd (category d) (category p)\<rparr>)"

text \<open>
  The \<^verbatim>\<open>results\<close> dict of one category and the entries of its \<^verbatim>\<open>created_pins\<close>. The
  success rate is a float in the source and a real number here.
\<close>

record created_pin =
  product_title :: "pystr option"
  pin_id :: "pystr option"
  pin_url :: "pystr option"

record cat_result =
  products_found :: nat
  pins_created :: nat
  errors :: nat
  success_rate :: real
  created_pins :: "created_pin list"

definition initial_results :: cat_result where
  "initial_results =
     \<lparr>products_found = 0, pins_created = 0, errors = 0, success_rate = 0, created_pins = []\<rparr>"

text \<open>
  The body of the loop over the products, for the product \<open>p\<close> at position \<open>i\<close> of
  \<open>n\<close>, posting to board \<open>b\<close>. Every exception of the body is caught and counted as one
  error: the KeyError of a product without url, and the ValueError of \<^verbatim>\<open>time.sleep\<close> on
  a negative interval, which is reached before every product but the last, after the pin
  has been counted. A pin counts as created when the answer is a non-empty object.
\<close>

definition post_product ::
  "pystr \<Rightarrow> world \<Rightarrow> pystr \<Rightarrow> pystr \<Rightarrow> int \<Rightarrow> nat \<Rightarrow> nat \<Rightarrow> product \<Rightarrow> cat_result \<Rightarrow> cat_result" where
  "post_product amazon_tag w c b post_interval n i p r =
     (case url p of
        None \<Rightarrow> r\<lparr>errors := errors r + 1\<rparr>
      | Some u \<Rightarrow>
          (let p' = (case detail_reply w i u of None \<Rightarrow> p | Some d \<Rightarrow> dict_update p d)
           in case generate_pin_content amazon_tag (draw w i) p' c of
                None \<Rightarrow> r\<lparr>errors := errors r + 1\<rparr>
              | Some content \<Rightarrow>
                  (let r' = (case create_pinterest_pin (pin_reply w i b content) of
                               Some (kv # info) \<Rightarrow>
                                 r\<lparr>pins_created := pins_created r + 1,
                                   created_pins := created_pins r @
                                     [\<lparr>product_title = title p',
                                       pin_id = map_of (kv # info) (ustr ''id''),
                                       pin_url = map_of (kv # info) (ustr ''url'')\<rparr>]\<rparr>
                             | _ \<Rightarrow> r\<lparr>errors := errors r + 1\<rparr>)
                   in if Suc i < n \<and> post_interval < 0
                      then r'\<lparr>errors := errors r' + 1\<rparr> else r')))"

fun post_products ::
  "pystr \<Rightarrow> world \<Rightarrow> pystr \<Rightarrow> pystr \<Rightarrow> int \<Rightarrow> nat \<Rightarrow> nat \<Rightarrow> product list \<Rightarrow> cat_result \<Rightarrow> cat_result" where
  "post_products amazon_tag w c b post_interval n i [] r = r"
| "post_products amazon_tag w c b post_interval n i (p # ps) r =
     post_products amazon_tag w c b post_interval n (Suc i) ps
       (post_product amazon_tag w c b post_interval n i p r)"

text \<open>
  The target board: the one passed in if it is truthy, else the id of the first board
  of the account. \<open>None\<close> covers both ways out that leave \<^verbatim>\<open>results\<close> untouched: no
  board at all (the early \<^verbatim>\<open>return results\<close>), and a first board without \<^verbatim>\<open>id\<close> or
  \<^verbatim>\<open>name\<close>, whose KeyError the outer \<^verbatim>\<open>except\<close> only logs.
\<close>

definition resolve_board :: "world \<Rightarrow> pystr option \<Rightarrow> pystr option" where
  "resolve_board w board =
     (if truthy board then board
      else (case get_pinterest_boards (boards_reply w) of
              [] \<Rightarrow> None
            | b # bs \<Rightarrow>
                (case (board_id b, board_name b) of
                   (Some i, Some n) \<Rightarrow> Some i
                 | _ \<Rightarrow> None)))"

definition run_complete_automation ::
  "pystr \<Rightarrow> world \<Rightarrow> pystr \<Rightarrow> int \<Rightarrow> pystr option \<Rightarrow> int \<Rightarrow> cat_result" where
  "run_complete_automation amazon_tag w c max_products board post_interval =
     (case resolve_board w board of
        Some b \<Rightarrow>
          (let trending_products = get_trending_products (catalog w) c max_products;
               results = initial_results\<lparr>products_found := length trending_products\<rparr>
           in if trending_products = [] then results
              else (let r = post_products amazon_tag w c b post_interval
                              (length trending_products) 0 trending_products results;
                        total_attempts = pins_created r + errors r
                    in if 0 < total_attempts
                       then r\<lparr>success_rate :=
                               of_nat (pins_created r) / of_nat total_attempts * 100\<rparr>
                       else r))
      | None \<Rightarrow> initial_results)"


section \<open>Jobs and the background task (\<^verbatim>\<open>main.py\<close>)\<close>

text \<open>
  A job is the dict stored in \<^verbatim>\<open>active_jobs\<close>; the status is one of five literals. The
  \<^verbatim>\<open>progress\<close> dict has the key \<^verbatim>\<open>overall_progress\<close> from the start and the three
  others once the task has written them. \<^verbatim>\<open>overall_progress\<close> is a float computed as
  \<^verbatim>\<open>(completed / total) * 100\<close>; it is a real number here, and what is proved of it
  (order, and the value 100 that the task assigns) is kept by rounding, which is
  monotone. The timestamps \<^verbatim>\<open>created_at\<close> and \<^verbatim>\<open>updated_at\<close> are readings of the wall
  clock and are left out.
\<close>

datatype job_status = Queued | Running | Completed | Failed | Cancelled

record job_progress =
  current_category :: "pystr option"
  completed_categories :: "nat option"
  total_categories :: "nat option"
  overall_progress :: real

datatype category_entry = Category_Result cat_result | Category_Error pystr

record overall_results =
  total_products_found :: nat
  total_pins_created :: nat
  total_errors :: nat
  category_results :: "pystr \<rightharpoonup> category_entry"

record automation_config =
  categories :: "pystr list"
  max_products_per_category :: int
  post_interval_seconds :: int
  daily_pin_limit :: int
  min_rating :: real
  min_reviews :: int
  price_range_min :: int
  price_range_max :: int

record job =
  job_id :: pystr
  status :: job_status
  progress :: job_progress
  session_id :: pystr
  config :: automation_config
  results :: "overall_results option"
  error :: "pystr option"

text \<open>
  The bot, as the task sees it: what the call number \<open>i\<close> of
  \<^verbatim>\<open>bot.run_complete_automation(category, max_products, post_interval)\<close> does, either
  raise an exception (\<open>Inl\<close> its message) or return the category's results. The bot of
  the repository never raises: it answers call \<open>i\<close> from the world it meets then.
\<close>

type_synonym bot = "nat \<Rightarrow> pystr \<Rightarrow> int \<Rightarrow> int \<Rightarrow> pystr + cat_result"

definition amazon_pinterest_bot :: "pystr \<Rightarrow> (nat \<Rightarrow> world) \<Rightarrow> bot" where
  "amazon_pinterest_bot amazon_tag worlds =
     (\<lambda>i c max_products post_interval.
        Inr (run_complete_automation amazon_tag (worlds i) c max_products None post_interval))"

text \<open>
  The variables of \<^verbatim>\<open>run_automation_task\<close>: the job's record \<^verbatim>\<open>active_jobs[job_id]\<close>,
  \<^verbatim>\<open>completed_categories\<close>, \<^verbatim>\<open>overall_results\<close>, and whether the job's \<^verbatim>\<open>results\<close> is
  that very dict (after the first assignment it is, so a later change of
  \<^verbatim>\<open>overall_results\<close> shows in the job at once). \<open>writes\<close> lists the job's record after
  each change the task makes to it, oldest first; \<open>put\<close> makes a change and lists it.
\<close>

record task_state =
  cur :: job
  completed :: nat
  overall :: overall_results
  attached :: bool
  writes :: "job list"

definition put :: "(job \<Rightarrow> job) \<Rightarrow> task_state \<Rightarrow> task_state" where
  "put f st = st\<lparr>cur := f (cur st), writes := writes st @ [f (cur st)]\<rparr>"

text \<open>
  One iteration of the loop over the categories, for call number \<open>i\<close> and category \<open>c\<close>:
  the progress is written, then the bot runs. When it returns, the totals grow by the
  category's counts and the job's \<^verbatim>\<open>results\<close> is assigned (lines 189 to 197, listed as one
  change). When it raises, the handler adds one error and stores the message as the
  category's entry. The total is \<^verbatim>\<open>len(config.categories)\<close>, which is not 0 inside the
  loop.
\<close>

definition category_step :: "bot \<Rightarrow> automation_config \<Rightarrow> nat \<Rightarrow> pystr \<Rightarrow> task_state \<Rightarrow> task_state" where
  "category_step b cfg i c st =
     (let st1 = put (\<lambda>j. j\<lparr>progress :=
                   \<lparr>current_category = Some c,
                    completed_categories = Some (completed st),
                    total_categories = Some (length (categories cfg)),
                    overall_progress =
                      real (completed st) / real (length (categories cfg)) * 100\<rparr>\<rparr>) st
      in case b i c (max_products_per_category cfg) (post_interval_seconds cfg) of
           Inr r \<Rightarrow>
             (let ov = (overall st1)
                         \<lparr>total_products_found :=
                            total_products_found (overall st1) + products_found r,
                          total_pins_created :=
                            total_pins_created (overall st1) + pins_created r,
                          total_errors := total_errors (overall st1) + errors r,
                          category_results :=
                            (category_results (overall st1))(c \<mapsto> Category_Result r)\<rparr>
              in put (\<lambda>j. j\<lparr>results := Some ov\<rparr>)
                   (st1\<lparr>overall := ov, completed := completed st1 + 1, attached := True\<rparr>))
         | Inl msg \<Rightarrow>
             (let ov = (overall st1)
                         \<lparr>total_errors := total_errors (overall st1) + 1,
                          category_results :=
                            (category_results (overall st1))(c \<mapsto> Category_Error msg)\<rparr>
              in if attached st1
                 then put (\<lambda>j. j\<lparr>results := Some ov\<rparr>) (st1\<lparr>overall := ov\<rparr>)
                 else st1\<lparr>overall := ov\<rparr>))"

fun process_categories :: "bot \<Rightarrow> automation_config \<Rightarrow> nat \<Rightarrow> pystr list \<Rightarrow> task_state \<Rightarrow> task_state" where
  "process_categories b cfg i [] st = st"
| "process_categories b cfg i (c # cs) st =
     process_categories b cfg (Suc i) cs (category_step b cfg i c st)"

text \<open>
  The task. \<open>prepared\<close> is what decrypting the credentials and building the bot (lines 151
  to 158) give: \<open>Inl\<close> the message of the exception raised there, or the bot. The cipher
  and the bot's constructor are library code outside the program. The task has no
  suspension point (no \<^verbatim>\<open>await\<close>), so a request handler sees the job before the first
  write or after the last.
\<close>

definition initial_overall :: overall_results where
  "initial_overall =
     \<lparr>total_products_found = 0, total_pins_created = 0, total_errors = 0,
      category_results = Map.empty\<rparr>"

definition task_run :: "(pystr + bot) \<Rightarrow> automation_config \<Rightarrow> job \<Rightarrow> task_state" where
  "task_run prepared cfg j =
     (let st0 = put (\<lambda>j. j\<lparr>status := Running\<rparr>)
                  \<lparr>cur = j, completed = 0, overall = initial_overall, attached = False,
                   writes = []\<rparr>
      in case prepared of
           Inl msg \<Rightarrow>
             put (\<lambda>j. j\<lparr>error := Some msg\<rparr>) (put (\<lambda>j. j\<lparr>status := Failed\<rparr>) st0)
         | Inr b \<Rightarrow>
             (let st1 = process_categories b cfg 0 (categories cfg) st0;
                  st2 = put (\<lambda>j. j\<lparr>status := Completed\<rparr>) st1;
                  st3 = put (\<lambda>j. j\<lparr>results := Some (overall st2)\<rparr>) (st2\<lparr>attached := True\<rparr>)
              in put (\<lambda>j. j\<lparr>progress := (progress j)\<lparr>overall_progress := 100\<rparr>\<rparr>) st3))"

definition run_automation_task :: "(pystr + bot) \<Rightarrow> automation_config \<Rightarrow> job \<Rightarrow> job" where
  "run_automation_task prepared cfg j = cur (task_run prepared cfg j)"

definition task_writes :: "(pystr + bot) \<Rightarrow> automation_config \<Rightarrow> job \<Rightarrow> job list" where
  "task_writes prepared cfg j = writes (task_run prepared cfg j)"

section \<open>The request handlers (\<^verbatim>\<open>main.py\<close>)\<close>

text \<open>
  The two registries of the process. A session entry holds the derived key and the salt;
  both are bytes that the cipher library produces.
\<close>

record session_entry =
  session_key :: "nat list"
  salt :: "nat list"

record server =
  active_jobs :: "pystr \<rightharpoonup> job"
  encryption_keys :: "pystr \<rightharpoonup> session_entry"

text \<open>
  The handlers. Each needs a live session (\<^verbatim>\<open>verify_session\<close>, 401 otherwise). The id of a
  new job is drawn by \<^verbatim>\<open>uuid.uuid4()\<close> and is a parameter. \<^verbatim>\<open>cancel_job\<close> writes the
  status whatever it was; \<^verbatim>\<open>end_session\<close> cancels the session's queued and running
  jobs only.
\<close>

datatype http_error = Unauthorized | Forbidden | Not_Found

definition start_automation :: "pystr \<Rightarrow> pystr \<Rightarrow> automation_config \<Rightarrow> server \<Rightarrow> http_error + server" where
  "start_automation new_id sid cfg s =
     (if sid \<notin> dom (encryption_keys s) then Inl Unauthorized
      else Inr (s\<lparr>active_jobs := (active_jobs s)(new_id \<mapsto>
             \<lparr>job_id = new_id, status = Queued,
              progress = \<lparr>current_category = None, completed_categories = None,
                          total_categories = None, overall_progress = 0\<rparr>,
              session_id = sid, config = cfg, results = None, error = None\<rparr>)\<rparr>))"

definition cancel_job :: "pystr \<Rightarrow> pystr \<Rightarrow> server \<Rightarrow> http_error + server" where
  "cancel_job jid sid s =
     (if sid \<notin> dom (encryption_keys s) then Inl Unauthorized
      else case active_jobs s jid of
             None \<Rightarrow> Inl Not_Found
           | Some j \<Rightarrow>
               if session_id j \<noteq> sid then Inl Forbidden
               else Inr (s\<lparr>active_jobs := (active_jobs s)(jid \<mapsto> j\<lparr>status := Cancelled\<rparr>)\<rparr>))"

definition end_session :: "pystr \<Rightarrow> server \<Rightarrow> http_error + server" where
  "end_session sid s =
     (if sid \<notin> dom (encryption_keys s) then Inl Unauthorized
      else Inr \<lparr>active_jobs =
                 (\<lambda>jid. case active_jobs s jid of
                           None \<Rightarrow> None
                         | Some j \<Rightarrow>
                             if session_id j = sid \<and> (status j = Queued \<or> status j = Running)
                             then Some (j\<lparr>status := Cancelled\<rparr>) else Some j),
               encryption_keys = (encryption_keys s)(sid := None)\<rparr>)"

text \<open>
  The background task on the registry. A job is never removed from \<^verbatim>\<open>active_jobs\<close>, so
  the task finds its record; without one the KeyError escapes and nothing is written.
\<close>

definition background_task :: "pystr \<Rightarrow> (pystr + bot) \<Rightarrow> automation_config \<Rightarrow> server \<Rightarrow> server" where
  "background_task jid prepared cfg s =
     (case active_jobs s jid of
        None \<Rightarrow> s
      | Some j \<Rightarrow> s\<lparr>active_jobs := (active_jobs s)(jid \<mapsto> run_automation_task prepared cfg j)\<rparr>)"

definition get_job_status :: "pystr \<Rightarrow> pystr \<Rightarrow> server \<Rightarrow> http_error + job" where
  "get_job_status jid sid s =
     (if sid \<notin> dom (encryption_keys s) then Inl Unauthorized
      else case active_jobs s jid of
             None \<Rightarrow> Inl Not_Found
           | Some j \<Rightarrow> if session_id j \<noteq> sid then Inl Forbidden else Inr j)"

text \<open>
  What can happen to the registries: a request of a client, or a background task that
  runs. \<open>handle\<close> gives the registries afterwards; a request answered with an error
  leaves them as they were, and so do the requests that only read (the status of a job;
  the list of jobs, the health check and the static pages are like it). Starting a
  session stores its entry under the fresh session id.
\<close>

datatype event =
    Start_Session pystr session_entry
  | Start_Automation pystr pystr automation_config
  | Background_Task pystr "pystr + bot" automation_config
  | Get_Job_Status pystr pystr
  | Cancel_Job pystr pystr
  | End_Session pystr

fun handle :: "event \<Rightarrow> server \<Rightarrow> server" where
  "handle (Start_Session new_sid entry) s =
     s\<lparr>encryption_keys := (encryption_keys s)(new_sid \<mapsto> entry)\<rparr>"
| "handle (Start_Automation new_id sid cfg) s =
     (case start_automation new_id sid cfg s of Inl e \<Rightarrow> s | Inr s' \<Rightarrow> s')"
| "handle (Background_Task jid prepared cfg) s = background_task jid prepared cfg s"
| "handle (Get_Job_Status jid sid) s = s"
| "handle (Cancel_Job jid sid) s =
     (case cancel_job jid sid s of Inl e \<Rightarrow> s | Inr s' \<Rightarrow> s')"
| "handle (End_Session sid) s =
     (case end_session sid s of Inl e \<Rightarrow> s | Inr s' \<Rightarrow> s')"


section \<open>Example inputs\<close>

text \<open>
  A catalogue whose every search page shows the same three items, with the asins
  \<^verbatim>\<open>A1\<close>, \<^verbatim>\<open>A2\<close> and \<^verbatim>\<open>A3\<close>.
\<close>

definition example_container :: "pystr \<Rightarrow> container" where
  "example_container a =
     \<lparr>c_title = Some (ustr ''Lamp''), c_href = Some (ustr ''https://www.amazon.com/dp/'' @ a),
      c_price = None, c_image = None, c_rating = None, c_asin = Some a, c_rank = Some 1\<rparr>"

definition example_catalog :: "pystr \<Rightarrow> search_reply" where
  "example_catalog t =
     Search_Page [example_container (ustr ''A1''), example_container (ustr ''A2''),
                  example_container (ustr ''A3'')]"

text \<open>
  A configuration with two categories, the job that \<^verbatim>\<open>start_automation\<close> creates for it
  in a server with one session, and the server after the job has been cancelled.
\<close>

definition example_config :: automation_config where
  "example_config =
     \<lparr>categories = [ustr ''electronics'', ustr ''home''], max_products_per_category = 5,
      post_interval_seconds = 300, daily_pin_limit = 50, min_rating = 4, min_reviews = 10,
      price_range_min = 5, price_range_max = 500\<rparr>"

definition example_job :: job where
  "example_job =
     \<lparr>job_id = ustr ''job-1'', status = Queued,
      progress = \<lparr>current_category = None, completed_categories = None,
                  total_categories = None, overall_progress = 0\<rparr>,
      session_id = ustr ''session-1'', config = example_config, results = None,
      error = None\<rparr>"

definition example_server :: server where
  "example_server =
     \<lparr>active_jobs = Map.empty,
      encryption_keys = [ustr ''session-1'' \<mapsto> \<lparr>session_key = [], salt = []\<rparr>]\<rparr>"

definition example_queued :: server where
  "example_queued =
     handle (Start_Automation (ustr ''job-1'') (ustr ''session-1'') example_config)
       example_server"

definition example_cancelled :: server where
  "example_cancelled = handle (Cancel_Job (ustr ''job-1'') (ustr ''session-1'')) example_queued"

text \<open>
  A bot whose run for \<^verbatim>\<open>home\<close> raises and whose run for any other category returns a
  summary with two products, one pin and one error.
\<close>

definition example_bot :: bot where
  "example_bot i c max_products post_interval =
     (if c = ustr ''home'' then Inl (ustr ''boom'')
      else Inr \<lparr>products_found = 2, pins_created = 1, errors = 1, success_rate = 50,
                created_pins = [\<lparr>product_title = Some (ustr ''Lamp''),
                                 pin_id = Some (ustr ''1''), pin_url = None\<rparr>]\<rparr>)"

text \<open>
  A world with one board, the example catalogue, no detail pages, and a platform that
  creates every pin; and the same world with an account that has no board.
\<close>

definition example_world :: world where
  "example_world =
     \<lparr>boards_reply = Boards_Response 200
                       [\<lparr>board_id = Some (ustr ''b1''), board_name = Some (ustr ''Finds'')\<rparr>],
      catalog = example_catalog,
      detail_reply = (\<lambda>i u. None),
      draw = (\<lambda>i. 0),
      pin_reply = (\<lambda>i b content. Pin_Response 201 [(ustr ''id'', ustr ''77'')])\<rparr>"

definition example_world_no_boards :: world where
  "example_world_no_boards = example_world\<lparr>boards_reply := Boards_Response 200 []\<rparr>"

section \<open>Affiliate links: the example of the specification\<close>

text \<open>
  Claim C3 as stated: the link built from \<^verbatim>\<open>https://x/dp/B001ABC?ref=1\<close> with tag
  \<^verbatim>\<open>tag123\<close> would keep the host \<^verbatim>\<open>x\<close> of the input. It does not: the function writes
  the fixed host \<^verbatim>\<open>www.amazon.com\<close>.
\<close>

theorem create_affiliate_link_keeps_host_counterexample:
  "create_affiliate_link (ustr ''tag123'') (ustr ''https://x/dp/B001ABC?ref=1'')
     \<noteq> ustr ''https://x/dp/B001ABC?tag=tag123''"
  by (simp add: create_affiliate_link_def extract_asin_def py_split_def py_index_def ustr_def)

text \<open>
  Claim C3, amended: \<^verbatim>\<open>create_affiliate_link\<close> applied to the URL
  \<^verbatim>\<open>https://x/dp/B001ABC?ref=1\<close> with tag \<^verbatim>\<open>tag123\<close> returns exactly
  \<^verbatim>\<open>https://www.amazon.com/dp/B001ABC?tag=tag123\<close>: the item id \<^verbatim>\<open>B001ABC\<close> is cut out
  of the input, the query string is dropped, and host and path are the fixed ones.
\<close>

theorem create_affiliate_link_example:
  "create_affiliate_link (ustr ''tag123'') (ustr ''https://x/dp/B001ABC?ref=1'')
     = ustr ''https://www.amazon.com/dp/B001ABC?tag=tag123''"
  by (simp add: create_affiliate_link_def extract_asin_def py_split_def py_index_def ustr_def)

section \<open>Pin titles\<close>

lemma length_ustr: "length (ustr s) = length s"
  by (simp add: ustr_def)

text \<open>
  Claim C6: for every product whose title has exactly 120 characters, the pin title is
  the first 97 characters of the title followed by \<^verbatim>\<open>...\<close>, 100 characters in all, with
  no prefix, whatever \<^verbatim>\<open>random.choice\<close> would draw. The second part is the rule behind
  it: whenever the possibly truncated title has at least 80 characters, the pin title
  is exactly that title, so a prefix is prepended only under 80 characters.
\<close>

theorem generate_pin_title_120:
  assumes "title p = Some t" and "length t = 120"
  shows "generate_pin_title pick p = take 97 t @ ustr ''...''
       \<and> length (generate_pin_title pick p) = 100
       \<and> (\<forall>q u k. title q = Some u
            \<longrightarrow> 80 \<le> length (if 100 < length u then take 97 u @ ustr ''...'' else u)
            \<longrightarrow> generate_pin_title k q
                  = (if 100 < length u then take 97 u @ ustr ''...'' else u))"
  using assms by (auto simp: generate_pin_title_def Let_def length_ustr)

theorem generate_pin_title_120_witness:
  "generate_pin_title 3
     \<lparr>title = Some (replicate 120 65), url = None, asin = None, price = None,
      image_url = None, rating = None, search_rank = None, description = None,
      features = None, images = None, reviews_count = None, availability = None,
      category = None\<rparr>
   = replicate 97 65 @ ustr ''...''"
  using generate_pin_title_120 [of
     "\<lparr>title = Some (replicate 120 65), url = None, asin = None, price = None,
      image_url = None, rating = None, search_rank = None, description = None,
      features = None, images = None, reviews_count = None, availability = None,
      category = None\<rparr>" "replicate 120 65" 3]
  by simp

section \<open>Trending products: no duplicates, bounded length\<close>

lemma dedup_loop_asin:
  "p \<in> set (dedup_loop seen ps) \<Longrightarrow> \<exists>a. asin p = Some a \<and> a \<noteq> [] \<and> a \<notin> seen"
  by (induction ps arbitrary: seen) (auto split: option.splits if_splits)

lemma dedup_loop_distinct: "distinct (map asin (dedup_loop seen ps))"
proof (induction ps arbitrary: seen)
  case Nil
  show ?case by simp
next
  case (Cons x ps)
  show ?case
  proof (cases "asin x")
    case None
    then show ?thesis using Cons.IH by simp
  next
    case (Some a)
    have "Some a \<notin> asin ` set (dedup_loop (insert a seen) ps)"
      using dedup_loop_asin [of _ "insert a seen" ps] by force
    then show ?thesis using Some Cons.IH by simp
  qed
qed

lemma dedup_loop_subseq: "subseq (dedup_loop seen ps) ps"
  by (induction ps arbitrary: seen) (auto split: option.splits)

lemma dedup_loop_first:
  "p \<in> set (dedup_loop seen ps) \<Longrightarrow> List.find (\<lambda>q. asin q = asin p) ps = Some p"
proof (induction ps arbitrary: seen)
  case Nil
  then show ?case by simp
next
  case (Cons x ps)
  obtain b where b: "asin p = Some b" "b \<noteq> []" "b \<notin> seen"
    using dedup_loop_asin [OF Cons.prems] by blast
  show ?case
  proof (cases "asin x = asin p")
    case True
    then have "dedup_loop seen (x # ps) = x # dedup_loop (insert b seen) ps"
      using b by simp
    then have "p = x \<or> p \<in> set (dedup_loop (insert b seen) ps)"
      using Cons.prems by simp
    then have "p = x"
      using dedup_loop_asin [of p "insert b seen" ps] b by auto
    then show ?thesis by simp
  next
    case False
    then have "p \<in> set (dedup_loop seen ps) \<or> (\<exists>a. asin x = Some a \<and> p \<in> set (dedup_loop (insert a seen) ps))"
      using Cons.prems by (auto split: option.splits if_splits)
    then have "List.find (\<lambda>q. asin q = asin p) ps = Some p"
      using Cons.IH by blast
    then show ?thesis using False by simp
  qed
qed

lemma py_slice_to_take: "\<exists>j. py_slice_to k xs = take j xs"
  by (auto simp: py_slice_to_def)

lemma py_slice_to_length: "0 \<le> k \<Longrightarrow> int (length (py_slice_to k xs)) \<le> k"
  by (simp add: py_slice_to_def)

lemma py_slice_to_zero: "py_slice_to 0 xs = []"
  by (simp add: py_slice_to_def)

text \<open>
  Claim C7: for every catalogue, category and requested maximum, the list returned by
  \<^verbatim>\<open>get_trending_products\<close> has no two products with the same asin; it is a
  subsequence of the products accumulated from the searches (their order is kept); each
  product in it has an asin and is the first accumulated product with that asin; and
  for a maximum that is not negative its length is at most the maximum.
\<close>

theorem get_trending_products_unique:
  "distinct (map asin (get_trending_products shop c m))
   \<and> subseq (get_trending_products shop c m) (accumulated_products shop c m)
   \<and> (\<forall>p \<in> set (get_trending_products shop c m).
         truthy (asin p)
         \<and> List.find (\<lambda>q. asin q = asin p) (accumulated_products shop c m) = Some p)
   \<and> (0 \<le> m \<longrightarrow> int (length (get_trending_products shop c m)) \<le> m)"
proof -
  let ?acc = "accumulated_products shop c m"
  let ?u = "remove_duplicate_products ?acc"
  obtain j where j: "get_trending_products shop c m = take j ?u"
    unfolding get_trending_products_def using py_slice_to_take by blast
  have d: "distinct (map asin (take j ?u))"
    using dedup_loop_distinct [of "{}" ?acc]
    by (simp add: remove_duplicate_products_def take_map [symmetric])
  have s: "subseq (take j ?u) ?acc"
  proof -
    have "subseq (take j ?u) ?u"
      by (metis append_take_drop_id prefix_def prefix_imp_subseq)
    moreover have "subseq ?u ?acc"
      by (simp add: remove_duplicate_products_def dedup_loop_subseq)
    ultimately show ?thesis by (rule subseq_order.order_trans)
  qed
  have f: "\<forall>p \<in> set (take j ?u). truthy (asin p) \<and> List.find (\<lambda>q. asin q = asin p) ?acc = Some p"
  proof
    fix p assume "p \<in> set (take j ?u)"
    then have p: "p \<in> set (dedup_loop {} ?acc)"
      by (auto simp: remove_duplicate_products_def dest: in_set_takeD)
    from dedup_loop_asin [OF p] have "truthy (asin p)" by (auto simp: truthy_def)
    with dedup_loop_first [OF p] show "truthy (asin p) \<and> List.find (\<lambda>q. asin q = asin p) ?acc = Some p"
      by simp
  qed
  have l: "0 \<le> m \<longrightarrow> int (length (get_trending_products shop c m)) \<le> m"
    by (simp add: get_trending_products_def py_slice_to_length)
  from d s f l show ?thesis unfolding j by simp
qed

lemma example_trending:
  "get_trending_products example_catalog (ustr ''home'') 6
     = [the (extract_product_from_search (example_container (ustr ''A1''))),
        the (extract_product_from_search (example_container (ustr ''A2'')))]"
  by (simp add: get_trending_products_def accumulated_products_def search_terms_def
        trending_categories_def search_amazon_products_def example_catalog_def
        remove_duplicate_products_def py_slice_to_def
        extract_product_from_search_def example_container_def truthy_def ustr_def)

theorem get_trending_products_unique_witness:
  "get_trending_products example_catalog (ustr ''home'') 6 \<noteq> []
   \<and> distinct (map asin (get_trending_products example_catalog (ustr ''home'') 6))
   \<and> int (length (get_trending_products example_catalog (ustr ''home'') 6)) \<le> 6"
  using get_trending_products_unique [of example_catalog "ustr ''home''" 6]
  by (simp add: example_trending)

section \<open>Trending products: a maximum below the number of search terms\<close>

lemma search_amazon_products_zero: "search_amazon_products shop t 0 = []"
  by (simp add: search_amazon_products_def py_slice_to_zero split: search_reply.splits)

lemma collect_products_zero_quota:
  "max_products div int n = 0 \<Longrightarrow> collect_products shop max_products n ts [] = []"
  by (induction ts) (simp_all add: search_amazon_products_zero)

lemma trending_categories_valid:
  "c \<in> set valid_categories \<Longrightarrow> \<exists>ts. trending_categories c = Some ts \<and> length ts = 3"
  by (auto simp: valid_categories_def trending_categories_def ustr_def)

text \<open>
  Claim C10: every category of the allow-list has exactly 3 search terms; for a
  requested maximum of 1 or 2 the quota of each term, \<^verbatim>\<open>max_products // 3\<close>, is 0, each
  search returns no product, and \<^verbatim>\<open>get_trending_products\<close> returns the empty list,
  whatever the catalogue holds.
\<close>

theorem get_trending_products_small_max:
  assumes "c \<in> set valid_categories" and "m = 1 \<or> m = 2"
  shows "trending_categories c = Some (search_terms c)
       \<and> length (search_terms c) = 3
       \<and> m div int (length (search_terms c)) = 0
       \<and> (\<forall>t \<in> set (search_terms c).
             search_amazon_products shop t (m div int (length (search_terms c))) = [])
       \<and> get_trending_products shop c m = []"
proof -
  obtain ts where ts: "trending_categories c = Some ts" "length ts = 3"
    using trending_categories_valid [OF assms(1)] by blast
  have st: "search_terms c = ts" by (simp add: search_terms_def ts(1))
  have q: "m div int (length ts) = 0" using assms(2) ts(2) by auto
  have "accumulated_products shop c m = []"
    unfolding accumulated_products_def st using q by (rule collect_products_zero_quota)
  then have "get_trending_products shop c m = []"
    by (simp add: get_trending_products_def remove_duplicate_products_def py_slice_to_def)
  with ts q st show ?thesis by (simp add: search_amazon_products_zero)
qed

theorem get_trending_products_small_max_witness:
  "ustr ''home'' \<in> set valid_categories
   \<and> get_trending_products example_catalog (ustr ''home'') 2 = []"
  using get_trending_products_small_max [of "ustr ''home''" 2 example_catalog]
  by (simp add: valid_categories_def)

section \<open>The task: what the loop over the categories computes\<close>

lemma put_simps [simp]:
  "cur (put f st) = f (cur st)"
  "completed (put f st) = completed st"
  "overall (put f st) = overall st"
  "attached (put f st) = attached st"
  "writes (put f st) = writes st @ [f (cur st)]"
  by (simp_all add: put_def)

lemma category_step_overall:
  "overall (category_step b cfg i c st) =
     (case b i c (max_products_per_category cfg) (post_interval_seconds cfg) of
        Inr r \<Rightarrow> (overall st)
                   \<lparr>total_products_found := total_products_found (overall st) + products_found r,
                    total_pins_created := total_pins_created (overall st) + pins_created r,
                    total_errors := total_errors (overall st) + errors r,
                    category_results := (category_results (overall st))(c \<mapsto> Category_Result r)\<rparr>
      | Inl msg \<Rightarrow> (overall st)
                   \<lparr>total_errors := total_errors (overall st) + 1,
                    category_results := (category_results (overall st))(c \<mapsto> Category_Error msg)\<rparr>)"
  by (simp add: category_step_def Let_def split: sum.splits)

lemma category_step_completed:
  "completed (category_step b cfg i c st) =
     (case b i c (max_products_per_category cfg) (post_interval_seconds cfg) of
        Inr r \<Rightarrow> completed st + 1 | Inl msg \<Rightarrow> completed st)"
  by (simp add: category_step_def Let_def split: sum.splits)

lemma category_step_status: "status (cur (category_step b cfg i c st)) = status (cur st)"
  by (simp add: category_step_def Let_def split: sum.splits)

lemma category_step_error: "error (cur (category_step b cfg i c st)) = error (cur st)"
  by (simp add: category_step_def Let_def split: sum.splits)

lemma category_step_writes: "\<exists>ws. writes (category_step b cfg i c st) = writes st @ ws"
  by (simp add: category_step_def Let_def split: sum.splits)

lemma process_categories_status:
  "status (cur (process_categories b cfg i cs st)) = status (cur st)"
  by (induction cs arbitrary: i st) (simp_all add: category_step_status)

lemma process_categories_error:
  "error (cur (process_categories b cfg i cs st)) = error (cur st)"
  by (induction cs arbitrary: i st) (simp_all add: category_step_error)

lemma process_categories_writes:
  "\<exists>ws. writes (process_categories b cfg i cs st) = writes st @ ws"
proof (induction cs arbitrary: i st)
  case Nil
  show ?case by simp
next
  case (Cons c cs)
  obtain ws1 where "writes (category_step b cfg i c st) = writes st @ ws1"
    using category_step_writes by blast
  moreover obtain ws2 where
    "writes (process_categories b cfg (Suc i) cs (category_step b cfg i c st))
       = writes (category_step b cfg i c st) @ ws2"
    using Cons.IH by blast
  ultimately show ?case by simp
qed


lemma sum_outcomes_Cons:
  fixes g :: "nat \<Rightarrow> 'a \<Rightarrow> nat"
  shows "(\<Sum>k<length (c # cs). g (i + k) ((c # cs) ! k))
           = g i c + (\<Sum>k<length cs. g (Suc i + k) (cs ! k))"
  by (simp add: sum.lessThan_Suc_shift del: sum.lessThan_Suc)

lemma process_categories_total_errors:
  "total_errors (overall (process_categories b cfg i cs st)) =
     total_errors (overall st)
     + (\<Sum>k<length cs.
          case b (i + k) (cs ! k) (max_products_per_category cfg) (post_interval_seconds cfg) of
            Inl msg \<Rightarrow> 1 | Inr r \<Rightarrow> errors r)"
proof (induction cs arbitrary: i st)
  case Nil
  show ?case by simp
next
  case (Cons c cs)
  have "total_errors (overall (category_step b cfg i c st)) =
          total_errors (overall st)
          + (case b i c (max_products_per_category cfg) (post_interval_seconds cfg) of
               Inl msg \<Rightarrow> 1 | Inr r \<Rightarrow> errors r)"
    by (simp add: category_step_overall split: sum.splits)
  then show ?case
    using Cons.IH [of "Suc i" "category_step b cfg i c st"]
      sum_outcomes_Cons [where g = "\<lambda>k x. case b k x (max_products_per_category cfg)
                                              (post_interval_seconds cfg) of
                                         Inl msg \<Rightarrow> 1 | Inr r \<Rightarrow> errors r" and c = c and cs = cs and i = i]
    by simp
qed

lemma process_categories_total_products_found:
  "total_products_found (overall (process_categories b cfg i cs st)) =
     total_products_found (overall st)
     + (\<Sum>k<length cs.
          case b (i + k) (cs ! k) (max_products_per_category cfg) (post_interval_seconds cfg) of
            Inl msg \<Rightarrow> 0 | Inr r \<Rightarrow> products_found r)"
proof (induction cs arbitrary: i st)
  case Nil
  show ?case by simp
next
  case (Cons c cs)
  have "total_products_found (overall (category_step b cfg i c st)) =
          total_products_found (overall st)
          + (case b i c (max_products_per_category cfg) (post_interval_seconds cfg) of
               Inl msg \<Rightarrow> 0 | Inr r \<Rightarrow> products_found r)"
    by (simp add: category_step_overall split: sum.splits)
  then show ?case
    using Cons.IH [of "Suc i" "category_step b cfg i c st"]
      sum_outcomes_Cons [where g = "\<lambda>k x. case b k x (max_products_per_category cfg)
                                              (post_interval_seconds cfg) of
                                         Inl msg \<Rightarrow> 0 | Inr r \<Rightarrow> products_found r" and c = c and cs = cs and i = i]
    by simp
qed

lemma process_categories_total_pins_created:
  "total_pins_created (overall (process_categories b cfg i cs st)) =
     total_pins_created (overall st)
     + (\<Sum>k<length cs.
          case b (i + k) (cs ! k) (max_products_per_category cfg) (post_interval_seconds cfg) of
            Inl msg \<Rightarrow> 0 | Inr r \<Rightarrow> pins_created r)"
proof (induction cs arbitrary: i st)
  case Nil
  show ?case by simp
next
  case (Cons c cs)
  have "total_pins_created (overall (category_step b cfg i c st)) =
          total_pins_created (overall st)
          + (case b i c (max_products_per_category cfg) (post_interval_seconds cfg) of
               Inl msg \<Rightarrow> 0 | Inr r \<Rightarrow> pins_created r)"
    by (simp add: category_step_overall split: sum.splits)
  then show ?case
    using Cons.IH [of "Suc i" "category_step b cfg i c st"]
      sum_outcomes_Cons [where g = "\<lambda>k x. case b k x (max_products_per_category cfg)
                                              (post_interval_seconds cfg) of
                                         Inl msg \<Rightarrow> 0 | Inr r \<Rightarrow> pins_created r" and c = c and cs = cs and i = i]
    by simp
qed

lemma process_categories_other_category:
  "c \<notin> set cs \<Longrightarrow>
     category_results (overall (process_categories b cfg i cs st)) c
       = category_results (overall st) c"
  by (induction cs arbitrary: i st) (auto simp: category_step_overall split: sum.splits)

lemma process_categories_entry:
  "k < length cs \<Longrightarrow> cs ! k \<notin> set (drop (Suc k) cs) \<Longrightarrow>
     category_results (overall (process_categories b cfg i cs st)) (cs ! k)
       = Some (case b (i + k) (cs ! k) (max_products_per_category cfg)
                      (post_interval_seconds cfg) of
                 Inl msg \<Rightarrow> Category_Error msg | Inr r \<Rightarrow> Category_Result r)"
proof (induction cs arbitrary: i k st)
  case Nil
  then show ?case by simp
next
  case (Cons c cs)
  show ?case
  proof (cases k)
    case 0
    then have "c \<notin> set cs" using Cons.prems by simp
    then show ?thesis
      using 0 by (simp add: process_categories_other_category category_step_overall
                       split: sum.splits)
  next
    case (Suc k')
    then show ?thesis using Cons.prems Cons.IH [of k' "Suc i"] by simp
  qed
qed

lemma last_occurrence:
  "c \<in> set cs \<Longrightarrow> \<exists>k<length cs. cs ! k = c \<and> c \<notin> set (drop (Suc k) cs)"
proof -
  assume "c \<in> set cs"
  then obtain ys zs where s: "cs = ys @ c # zs" "c \<notin> set zs"
    using split_list_last by fastforce
  then have "length ys < length cs \<and> cs ! length ys = c \<and> c \<notin> set (drop (Suc (length ys)) cs)"
    by simp
  then show ?thesis by blast
qed

lemma task_run_completed:
  "cur (task_run (Inr b) cfg j) =
     (cur (process_categories b cfg 0 (categories cfg)
             (put (\<lambda>j. j\<lparr>status := Running\<rparr>)
                \<lparr>cur = j, completed = 0, overall = initial_overall, attached = False,
                 writes = []\<rparr>)))
       \<lparr>status := Completed,
        results := Some (overall (process_categories b cfg 0 (categories cfg)
             (put (\<lambda>j. j\<lparr>status := Running\<rparr>)
                \<lparr>cur = j, completed = 0, overall = initial_overall, attached = False,
                 writes = []\<rparr>))),
        progress := (progress (cur (process_categories b cfg 0 (categories cfg)
             (put (\<lambda>j. j\<lparr>status := Running\<rparr>)
                \<lparr>cur = j, completed = 0, overall = initial_overall, attached = False,
                 writes = []\<rparr>))))\<lparr>overall_progress := 100\<rparr>\<rparr>"
  by (simp add: task_run_def Let_def)

lemma run_automation_task_status:
  "status (run_automation_task prepared cfg j) = (case prepared of Inl msg \<Rightarrow> Failed | Inr b \<Rightarrow> Completed)"
  by (simp add: run_automation_task_def task_run_def Let_def split: sum.splits)

lemma run_automation_task_results:
  "results (run_automation_task (Inr b) cfg j) =
     Some (overall (process_categories b cfg 0 (categories cfg)
             (put (\<lambda>j. j\<lparr>status := Running\<rparr>)
                \<lparr>cur = j, completed = 0, overall = initial_overall, attached = False,
                 writes = []\<rparr>)))"
  by (simp add: run_automation_task_def task_run_def Let_def)

lemma task_writes_first:
  "\<exists>ws. task_writes prepared cfg j = (j\<lparr>status := Running\<rparr>) # ws"
proof (cases prepared)
  case (Inl msg)
  then show ?thesis by (simp add: task_writes_def task_run_def Let_def)
next
  case (Inr b)
  obtain ws where
    "writes (process_categories b cfg 0 (categories cfg)
       (put (\<lambda>j. j\<lparr>status := Running\<rparr>)
          \<lparr>cur = j, completed = 0, overall = initial_overall, attached = False,
           writes = []\<rparr>)) = [j\<lparr>status := Running\<rparr>] @ ws"
    using process_categories_writes
      [of b cfg 0 "categories cfg" "put (\<lambda>j. j\<lparr>status := Running\<rparr>)
          \<lparr>cur = j, completed = 0, overall = initial_overall, attached = False,
           writes = []\<rparr>"]
    by auto
  then show ?thesis using Inr by (simp add: task_writes_def task_run_def Let_def)
qed

section \<open>Cancelling a job that is still queued\<close>

lemma example_queued_job: "active_jobs example_queued (ustr ''job-1'') = Some example_job"
  by (simp add: example_queued_def example_server_def start_automation_def example_job_def)

lemma example_queued_keys:
  "encryption_keys example_queued = [ustr ''session-1'' \<mapsto> \<lparr>session_key = [], salt = []\<rparr>]"
  by (simp add: example_queued_def example_server_def start_automation_def)

lemma example_cancelled_job:
  "active_jobs example_cancelled (ustr ''job-1'') = Some (example_job\<lparr>status := Cancelled\<rparr>)"
  by (simp add: example_cancelled_def cancel_job_def example_queued_job example_queued_keys
        example_job_def)

lemma example_cancelled_keys:
  "encryption_keys example_cancelled = [ustr ''session-1'' \<mapsto> \<lparr>session_key = [], salt = []\<rparr>]"
  by (simp add: example_cancelled_def cancel_job_def example_queued_job example_queued_keys
        example_job_def)

lemma example_writes_status:
  "map status (task_writes (Inr example_bot) example_config j)
     = [Running, Running, Running, Running, Running, Completed, Completed, Completed]"
  by (simp add: task_writes_def task_run_def Let_def example_config_def category_step_def
        example_bot_def ustr_def)

text \<open>
  Claim C1 as stated fails: the example job is cancelled while queued, and the task that
  runs afterwards sets its status to \<^verbatim>\<open>running\<close> with its first write and to
  \<^verbatim>\<open>completed\<close> at the end.
\<close>

theorem cancelled_job_is_set_running_counterexample:
  "map_option status (active_jobs example_cancelled (ustr ''job-1'')) = Some Cancelled
   \<and> map_option (\<lambda>j. map status (task_writes (Inr example_bot) example_config j))
        (active_jobs example_cancelled (ustr ''job-1''))
       = Some [Running, Running, Running, Running, Running, Completed, Completed, Completed]"
  by (simp add: example_cancelled_job example_writes_status)

text \<open>
  Claim C1, amended: when a queued job is cancelled by the session that owns it, its
  status becomes \<^verbatim>\<open>cancelled\<close> at once and nothing else of the record changes. The
  background task does not look at the status: when it runs afterwards, its first write
  sets the status to \<^verbatim>\<open>running\<close>, and it leaves the job \<^verbatim>\<open>completed\<close>, or \<^verbatim>\<open>failed\<close>
  when the credentials cannot be decrypted or the bot cannot be built.
\<close>

theorem cancel_queued_then_task:
  assumes "active_jobs s jid = Some j" and "status j = Queued"
    and "session_id j = sid" and "sid \<in> dom (encryption_keys s)"
  shows "\<exists>s'. cancel_job jid sid s = Inr s'
           \<and> active_jobs s' jid = Some (j\<lparr>status := Cancelled\<rparr>)
           \<and> (\<exists>ws. task_writes prepared cfg (j\<lparr>status := Cancelled\<rparr>)
                      = (j\<lparr>status := Running\<rparr>) # ws)
           \<and> (\<exists>j'. active_jobs (background_task jid prepared cfg s') jid = Some j'
                  \<and> status j' = (case prepared of Inl msg \<Rightarrow> Failed | Inr b \<Rightarrow> Completed))"
proof -
  let ?s' = "s\<lparr>active_jobs := (active_jobs s)(jid \<mapsto> j\<lparr>status := Cancelled\<rparr>)\<rparr>"
  have c: "cancel_job jid sid s = Inr ?s'"
    using assms by (auto simp: cancel_job_def)
  have w: "\<exists>ws. task_writes prepared cfg (j\<lparr>status := Cancelled\<rparr>) = (j\<lparr>status := Running\<rparr>) # ws"
    using task_writes_first [of prepared cfg "j\<lparr>status := Cancelled\<rparr>"] by simp
  have t: "active_jobs (background_task jid prepared cfg ?s') jid
             = Some (run_automation_task prepared cfg (j\<lparr>status := Cancelled\<rparr>))"
    by (simp add: background_task_def)
  show ?thesis
    using c w t run_automation_task_status [of prepared cfg "j\<lparr>status := Cancelled\<rparr>"] by simp
qed

theorem cancel_queued_then_task_witness:
  "\<exists>s'. cancel_job (ustr ''job-1'') (ustr ''session-1'') example_queued = Inr s'
     \<and> active_jobs s' (ustr ''job-1'') = Some (example_job\<lparr>status := Cancelled\<rparr>)
     \<and> (\<exists>ws. task_writes (Inr example_bot) example_config (example_job\<lparr>status := Cancelled\<rparr>)
                = (example_job\<lparr>status := Running\<rparr>) # ws)
     \<and> (\<exists>j'. active_jobs (background_task (ustr ''job-1'') (Inr example_bot) example_config s')
                 (ustr ''job-1'') = Some j'
            \<and> status j' = Completed)"
proof -
  have h2: "status example_job = Queued" by (simp add: example_job_def)
  have h3: "session_id example_job = ustr ''session-1''" by (simp add: example_job_def)
  have h4: "ustr ''session-1'' \<in> dom (encryption_keys example_queued)"
    by (simp add: example_queued_keys)
  from cancel_queued_then_task [OF example_queued_job h2 h3 h4, of "Inr example_bot" example_config]
  show ?thesis by simp
qed

section \<open>Jobs in a terminal status\<close>

lemma example_after_task:
  "active_jobs (background_task (ustr ''job-1'') prepared cfg example_cancelled)
     (ustr ''job-1'')
     = Some (run_automation_task prepared cfg (example_job\<lparr>status := Cancelled\<rparr>))"
  by (simp add: background_task_def example_cancelled_job)

lemma example_task_result:
  "status (run_automation_task (Inr example_bot) example_config j) = Completed
   \<and> overall_progress (progress (run_automation_task (Inr example_bot) example_config j)) = 100
   \<and> map_option total_errors (results (run_automation_task (Inr example_bot) example_config j))
       = Some 2"
  by (simp add: run_automation_task_def task_run_def Let_def example_config_def
        category_step_def example_bot_def ustr_def initial_overall_def)

text \<open>
  Claim C2 as stated fails: the example job is \<^verbatim>\<open>cancelled\<close>, a terminal status, and its
  task, running afterwards, changes its status, its progress and its results.
\<close>

theorem terminal_job_mutated_counterexample:
  "map_option status (active_jobs example_cancelled (ustr ''job-1'')) = Some Cancelled
   \<and> map_option status
        (active_jobs (handle (Background_Task (ustr ''job-1'') (Inr example_bot) example_config)
                        example_cancelled) (ustr ''job-1''))
       = Some Completed
   \<and> map_option (\<lambda>j. overall_progress (progress j))
        (active_jobs (handle (Background_Task (ustr ''job-1'') (Inr example_bot) example_config)
                        example_cancelled) (ustr ''job-1''))
       = Some 100
   \<and> map_option (\<lambda>j. map_option total_errors (results j))
        (active_jobs (handle (Background_Task (ustr ''job-1'') (Inr example_bot) example_config)
                        example_cancelled) (ustr ''job-1''))
       = Some (Some 2)"
  by (simp add: example_cancelled_job example_after_task example_task_result)

text \<open>
  Claim C2, amended: a job whose status is \<^verbatim>\<open>completed\<close>, \<^verbatim>\<open>failed\<close> or \<^verbatim>\<open>cancelled\<close>
  is left exactly as it is by every request and every background task other than a
  cancel request for this job, this job's own task, and the creation of a job under the
  same id (ids are drawn by \<^verbatim>\<open>uuid4\<close>): starting and ending sessions, in particular ending
  the session that owns the job, starting, cancelling and running other jobs, and reading
  the status. The job's own task does not check the status and still writes status,
  progress, results and error of a job cancelled before it ran.
\<close>

theorem terminal_job_untouched:
  assumes "active_jobs s jid = Some j"
    and "status j = Completed \<or> status j = Failed \<or> status j = Cancelled"
    and "\<forall>sid. ev \<noteq> Cancel_Job jid sid"
    and "\<forall>prepared cfg. ev \<noteq> Background_Task jid prepared cfg"
    and "\<forall>sid cfg. ev \<noteq> Start_Automation jid sid cfg"
  shows "active_jobs (handle ev s) jid = Some j"
proof (cases ev)
  case (Start_Session sid entry)
  then show ?thesis using assms(1) by simp
next
  case (Start_Automation new_id sid cfg)
  then have "new_id \<noteq> jid" using assms(5) by auto
  then show ?thesis using Start_Automation assms(1) by (simp add: start_automation_def)
next
  case (Background_Task k prepared cfg)
  then have "k \<noteq> jid" using assms(4) by auto
  then show ?thesis
    using Background_Task assms(1) by (simp add: background_task_def split: option.splits)
next
  case (Get_Job_Status k sid)
  then show ?thesis using assms(1) by simp
next
  case (Cancel_Job k sid)
  then have "k \<noteq> jid" using assms(3) by auto
  then show ?thesis
    using Cancel_Job assms(1) by (simp add: cancel_job_def split: option.splits)
next
  case (End_Session sid)
  then show ?thesis using assms(1,2) by (auto simp: end_session_def)
qed

theorem terminal_job_untouched_witness:
  "active_jobs (handle (End_Session (ustr ''session-1'')) example_cancelled) (ustr ''job-1'')
     = Some (example_job\<lparr>status := Cancelled\<rparr>)"
  using terminal_job_untouched [OF example_cancelled_job, of "End_Session (ustr ''session-1'')"]
  by simp

section \<open>Progress of a running job\<close>

text \<open>
  The invariant of the task: over the job's record at the start and after each write so
  far, \<^verbatim>\<open>overall_progress\<close> never decreases, the last of them is the current record, and none
  exceeds the current one.
\<close>

definition monotone_so_far :: "job \<Rightarrow> task_state \<Rightarrow> bool" where
  "monotone_so_far j st =
     (sorted (map (\<lambda>w. overall_progress (progress w)) (j # writes st))
      \<and> last (j # writes st) = cur st
      \<and> (\<forall>w \<in> set (j # writes st).
            overall_progress (progress w) \<le> overall_progress (progress (cur st))))"

lemma monotone_put:
  assumes "monotone_so_far j st"
    and "overall_progress (progress (cur st)) \<le> overall_progress (progress (f (cur st)))"
  shows "monotone_so_far j (put f st)"
proof -
  let ?g = "\<lambda>w. overall_progress (progress w)"
  have s: "sorted (map ?g (j # writes st))"
    and b: "\<forall>w \<in> set (j # writes st). ?g w \<le> ?g (cur st)"
    using assms(1) by (simp_all add: monotone_so_far_def)
  have b': "\<forall>w \<in> set (j # writes st). ?g w \<le> ?g (f (cur st))"
    using b assms(2) by fastforce
  have "sorted (map ?g (j # writes st) @ [?g (f (cur st))])"
    unfolding sorted_append using s b' by auto
  then have "sorted (map ?g (j # writes (put f st)))" by simp
  moreover have "last (j # writes (put f st)) = cur (put f st)" by simp
  moreover have "\<forall>w \<in> set (j # writes (put f st)). ?g w \<le> ?g (cur (put f st))"
    using b' by simp
  ultimately show ?thesis unfolding monotone_so_far_def by blast
qed

lemma monotone_field_update:
  "monotone_so_far j st \<Longrightarrow>
     monotone_so_far j (st\<lparr>overall := ov, completed := n, attached := a\<rparr>)"
  "monotone_so_far j st \<Longrightarrow> monotone_so_far j (st\<lparr>overall := ov\<rparr>)"
  "monotone_so_far j st \<Longrightarrow> monotone_so_far j (st\<lparr>attached := a\<rparr>)"
  by (simp_all add: monotone_so_far_def)

lemma category_step_monotone:
  assumes "monotone_so_far j st"
    and "overall_progress (progress (cur st))
           \<le> real (completed st) / real (length (categories cfg)) * 100"
  shows "monotone_so_far j (category_step b cfg i c st)
       \<and> overall_progress (progress (cur (category_step b cfg i c st)))
           \<le> real (completed (category_step b cfg i c st)) / real (length (categories cfg)) * 100"
proof -
  let ?p = "\<lparr>current_category = Some c, completed_categories = Some (completed st),
             total_categories = Some (length (categories cfg)),
             overall_progress = real (completed st) / real (length (categories cfg)) * 100\<rparr>"
  let ?st1 = "put (\<lambda>j. j\<lparr>progress := ?p\<rparr>) st"
  have m1: "monotone_so_far j ?st1"
    using assms(2) by (intro monotone_put [OF assms(1)]) simp
  have p1: "overall_progress (progress (cur ?st1))
              = real (completed st) / real (length (categories cfg)) * 100"
    by simp
  show ?thesis
  proof (cases "b i c (max_products_per_category cfg) (post_interval_seconds cfg)")
    case (Inl msg)
    let ?ov = "(overall ?st1)\<lparr>total_errors := total_errors (overall ?st1) + 1,
                 category_results := (category_results (overall ?st1))(c \<mapsto> Category_Error msg)\<rparr>"
    have e: "category_step b cfg i c st =
               (if attached ?st1 then put (\<lambda>j. j\<lparr>results := Some ?ov\<rparr>) (?st1\<lparr>overall := ?ov\<rparr>)
                else ?st1\<lparr>overall := ?ov\<rparr>)"
      using Inl by (simp add: category_step_def Let_def)
    have m2: "monotone_so_far j (?st1\<lparr>overall := ?ov\<rparr>)"
      using m1 by (rule monotone_field_update)
    have m3: "monotone_so_far j (put (\<lambda>j. j\<lparr>results := Some ?ov\<rparr>) (?st1\<lparr>overall := ?ov\<rparr>))"
      by (rule monotone_put [OF m2]) simp
    show ?thesis unfolding e using m2 m3 by simp
  next
    case (Inr r)
    let ?ov = "(overall ?st1)
                 \<lparr>total_products_found := total_products_found (overall ?st1) + products_found r,
                  total_pins_created := total_pins_created (overall ?st1) + pins_created r,
                  total_errors := total_errors (overall ?st1) + errors r,
                  category_results := (category_results (overall ?st1))(c \<mapsto> Category_Result r)\<rparr>"
    let ?st2 = "?st1\<lparr>overall := ?ov, completed := completed ?st1 + 1, attached := True\<rparr>"
    have e: "category_step b cfg i c st = put (\<lambda>j. j\<lparr>results := Some ?ov\<rparr>) ?st2"
      using Inr by (simp add: category_step_def Let_def)
    have m2: "monotone_so_far j ?st2"
      using m1 by (rule monotone_field_update)
    have m3: "monotone_so_far j (put (\<lambda>j. j\<lparr>results := Some ?ov\<rparr>) ?st2)"
      by (rule monotone_put [OF m2]) simp
    have "real (completed st) / real (length (categories cfg)) * 100
            \<le> real (completed st + 1) / real (length (categories cfg)) * 100"
      by (simp add: divide_right_mono)
    then show ?thesis unfolding e using m3 by simp
  qed
qed

lemma process_categories_monotone:
  assumes "monotone_so_far j st"
    and "overall_progress (progress (cur st))
           \<le> real (completed st) / real (length (categories cfg)) * 100"
  shows "monotone_so_far j (process_categories b cfg i cs st)
       \<and> overall_progress (progress (cur (process_categories b cfg i cs st)))
           \<le> real (completed (process_categories b cfg i cs st))
                / real (length (categories cfg)) * 100"
  using assms
proof (induction cs arbitrary: i st)
  case Nil
  then show ?case by simp
next
  case (Cons c cs)
  from category_step_monotone [OF Cons.prems, of b i c]
  show ?case using Cons.IH [of "category_step b cfg i c st" "Suc i"] by simp
qed

lemma process_categories_completed:
  "completed (process_categories b cfg i cs st) \<le> completed st + length cs"
proof (induction cs arbitrary: i st)
  case Nil
  show ?case by simp
next
  case (Cons c cs)
  have "completed (category_step b cfg i c st) \<le> completed st + 1"
    by (simp add: category_step_completed split: sum.splits)
  then show ?case using Cons.IH [of "Suc i" "category_step b cfg i c st"] by simp
qed

lemma task_run_monotone:
  assumes "overall_progress (progress j) = 0"
  shows "monotone_so_far j (task_run prepared cfg j)"
proof -
  let ?st0 = "put (\<lambda>j. j\<lparr>status := Running\<rparr>)
                \<lparr>cur = j, completed = 0, overall = initial_overall, attached = False,
                 writes = []\<rparr>"
  have i0: "monotone_so_far j \<lparr>cur = j, completed = 0, overall = initial_overall,
                                 attached = False, writes = []\<rparr>"
    by (simp add: monotone_so_far_def)
  have m0: "monotone_so_far j ?st0"
    by (rule monotone_put [OF i0]) simp
  show ?thesis
  proof (cases prepared)
    case (Inl msg)
    have f1: "monotone_so_far j (put (\<lambda>j. j\<lparr>status := Failed\<rparr>) ?st0)"
      by (rule monotone_put [OF m0]) simp
    have "monotone_so_far j (put (\<lambda>j. j\<lparr>error := Some msg\<rparr>) (put (\<lambda>j. j\<lparr>status := Failed\<rparr>) ?st0))"
      by (rule monotone_put [OF f1]) simp
    then show ?thesis using Inl by (simp add: task_run_def Let_def)
  next
    case (Inr b)
    let ?st1 = "process_categories b cfg 0 (categories cfg) ?st0"
    have p0: "overall_progress (progress (cur ?st0))
                \<le> real (completed ?st0) / real (length (categories cfg)) * 100"
      using assms by simp
    have m1: "monotone_so_far j ?st1"
      and p1: "overall_progress (progress (cur ?st1))
                 \<le> real (completed ?st1) / real (length (categories cfg)) * 100"
      using process_categories_monotone [OF m0 p0, of b 0 "categories cfg"] by simp_all
    have "completed ?st1 \<le> length (categories cfg)"
      using process_categories_completed [of b cfg 0 "categories cfg" ?st0] by simp
    then have "real (completed ?st1) / real (length (categories cfg)) \<le> 1"
      by (simp add: divide_le_eq_1)
    then have "real (completed ?st1) / real (length (categories cfg)) * 100 \<le> 1 * 100"
      by (rule mult_right_mono) simp
    then have le: "overall_progress (progress (cur ?st1)) \<le> 100"
      using p1 by linarith
    let ?st2 = "put (\<lambda>j. j\<lparr>status := Completed\<rparr>) ?st1"
    let ?st3 = "put (\<lambda>j. j\<lparr>results := Some (overall ?st2)\<rparr>) (?st2\<lparr>attached := True\<rparr>)"
    have m2: "monotone_so_far j ?st2"
      by (rule monotone_put [OF m1]) simp
    have m2': "monotone_so_far j (?st2\<lparr>attached := True\<rparr>)"
      using m2 by (rule monotone_field_update)
    have m3: "monotone_so_far j ?st3"
      by (rule monotone_put [OF m2']) simp
    have "monotone_so_far j (put (\<lambda>j. j\<lparr>progress := (progress j)\<lparr>overall_progress := 100\<rparr>\<rparr>) ?st3)"
      using le by (intro monotone_put [OF m3]) simp
    then show ?thesis using Inr by (simp add: task_run_def Let_def)
  qed
qed

lemma task_writes_nonempty: "task_writes prepared cfg j \<noteq> []"
  using task_writes_first [of prepared cfg j] by auto

text \<open>
  Claim C5: for a job as \<^verbatim>\<open>start_automation\<close> creates it (\<^verbatim>\<open>overall_progress\<close> 0), over
  the record at the start and after each write of the task, \<^verbatim>\<open>overall_progress\<close> never
  decreases. The record the task leaves is the last of these writes; when its status is
  \<^verbatim>\<open>completed\<close> its \<^verbatim>\<open>overall_progress\<close> is exactly 100, and the status is \<^verbatim>\<open>completed\<close>
  whenever the credentials could be decrypted and the bot built.
\<close>

theorem progress_never_decreases:
  assumes "overall_progress (progress j) = 0"
  shows "sorted (map (\<lambda>w. overall_progress (progress w)) (j # task_writes prepared cfg j))
       \<and> run_automation_task prepared cfg j = last (task_writes prepared cfg j)
       \<and> (status (run_automation_task prepared cfg j) = Completed
            \<longrightarrow> overall_progress (progress (run_automation_task prepared cfg j)) = 100)
       \<and> (\<forall>b. prepared = Inr b
            \<longrightarrow> status (run_automation_task prepared cfg j) = Completed)"
proof -
  have m: "monotone_so_far j (task_run prepared cfg j)"
    using assms by (rule task_run_monotone)
  have s: "sorted (map (\<lambda>w. overall_progress (progress w)) (j # task_writes prepared cfg j))"
    using m by (simp add: monotone_so_far_def task_writes_def)
  have l: "run_automation_task prepared cfg j = last (task_writes prepared cfg j)"
    using m task_writes_nonempty [of prepared cfg j]
    by (simp add: monotone_so_far_def task_writes_def run_automation_task_def)
  have c: "status (run_automation_task prepared cfg j) = Completed
             \<longrightarrow> overall_progress (progress (run_automation_task prepared cfg j)) = 100"
  proof (cases prepared)
    case (Inl msg)
    then show ?thesis by (simp add: run_automation_task_status)
  next
    case (Inr b)
    then show ?thesis by (simp add: run_automation_task_def task_run_completed)
  qed
  have d: "\<forall>b. prepared = Inr b \<longrightarrow> status (run_automation_task prepared cfg j) = Completed"
    by (simp add: run_automation_task_status)
  from s l c d show ?thesis by blast
qed

theorem progress_never_decreases_witness:
  "overall_progress (progress example_job) = 0
   \<and> sorted (map (\<lambda>w. overall_progress (progress w))
               (example_job # task_writes (Inr example_bot) example_config example_job))
   \<and> status (run_automation_task (Inr example_bot) example_config example_job) = Completed
   \<and> overall_progress (progress (run_automation_task (Inr example_bot) example_config
                                    example_job)) = 100"
proof -
  have h: "overall_progress (progress example_job) = 0" by (simp add: example_job_def)
  from progress_never_decreases [OF h, of "Inr example_bot" example_config]
  show ?thesis using h by blast
qed

text \<open>
  The values the task writes in the example: the second category starts at 50, and the
  end forces 100.
\<close>

lemma example_writes_progress:
  "map (\<lambda>w. overall_progress (progress w))
       (task_writes (Inr example_bot) example_config example_job)
     = [0, 0, 0, 50, 50, 50, 50, 100]"
  by (simp add: task_writes_def task_run_def Let_def example_config_def category_step_def
        example_bot_def ustr_def example_job_def)

section \<open>A category whose processing raises\<close>

text \<open>
  Claim C4: take a job whose category list contains a category \<open>c\<close> whose processing
  raises an exception (each time it is processed, should the list name it twice). The
  job ends \<^verbatim>\<open>completed\<close>; the entry of \<open>c\<close> in \<^verbatim>\<open>category_results\<close> is the message of an
  exception that its processing raised; in the error total every exception counts
  exactly 1 and every category that returned counts its own errors; the totals of
  products and pins are the sums over the categories that returned; and every category
  has as its entry the outcome of its (last) processing, the results where it returned.
\<close>

theorem category_exception_is_recorded:
  assumes "c \<in> set (categories cfg)"
    and "\<forall>k<length (categories cfg). categories cfg ! k = c \<longrightarrow>
           (\<exists>msg. b k c (max_products_per_category cfg) (post_interval_seconds cfg) = Inl msg)"
  shows "status (run_automation_task (Inr b) cfg j) = Completed
       \<and> (\<exists>ov. results (run_automation_task (Inr b) cfg j) = Some ov
            \<and> (\<exists>k msg. k < length (categories cfg) \<and> categories cfg ! k = c
                  \<and> b k c (max_products_per_category cfg) (post_interval_seconds cfg) = Inl msg
                  \<and> category_results ov c = Some (Category_Error msg))
            \<and> total_errors ov =
                 (\<Sum>k<length (categories cfg).
                    case b k (categories cfg ! k) (max_products_per_category cfg)
                           (post_interval_seconds cfg) of
                      Inl msg \<Rightarrow> 1 | Inr r \<Rightarrow> errors r)
            \<and> total_products_found ov =
                 (\<Sum>k<length (categories cfg).
                    case b k (categories cfg ! k) (max_products_per_category cfg)
                           (post_interval_seconds cfg) of
                      Inl msg \<Rightarrow> 0 | Inr r \<Rightarrow> products_found r)
            \<and> total_pins_created ov =
                 (\<Sum>k<length (categories cfg).
                    case b k (categories cfg ! k) (max_products_per_category cfg)
                           (post_interval_seconds cfg) of
                      Inl msg \<Rightarrow> 0 | Inr r \<Rightarrow> pins_created r)
            \<and> (\<forall>k<length (categories cfg).
                  categories cfg ! k \<notin> set (drop (Suc k) (categories cfg)) \<longrightarrow>
                  category_results ov (categories cfg ! k) =
                    Some (case b k (categories cfg ! k) (max_products_per_category cfg)
                                 (post_interval_seconds cfg) of
                            Inl msg \<Rightarrow> Category_Error msg | Inr r \<Rightarrow> Category_Result r)))"
proof -
  let ?st0 = "put (\<lambda>j. j\<lparr>status := Running\<rparr>)
                \<lparr>cur = j, completed = 0, overall = initial_overall, attached = False,
                 writes = []\<rparr>"
  let ?ov = "overall (process_categories b cfg 0 (categories cfg) ?st0)"
  have r: "results (run_automation_task (Inr b) cfg j) = Some ?ov"
    by (rule run_automation_task_results)
  have s: "status (run_automation_task (Inr b) cfg j) = Completed"
    by (simp add: run_automation_task_status)
  have e: "total_errors ?ov =
             (\<Sum>k<length (categories cfg).
                case b k (categories cfg ! k) (max_products_per_category cfg)
                       (post_interval_seconds cfg) of
                  Inl msg \<Rightarrow> 1 | Inr r \<Rightarrow> errors r)"
    using process_categories_total_errors [of b cfg 0 "categories cfg" ?st0]
    by (simp add: initial_overall_def)
  have f: "total_products_found ?ov =
             (\<Sum>k<length (categories cfg).
                case b k (categories cfg ! k) (max_products_per_category cfg)
                       (post_interval_seconds cfg) of
                  Inl msg \<Rightarrow> 0 | Inr r \<Rightarrow> products_found r)"
    using process_categories_total_products_found [of b cfg 0 "categories cfg" ?st0]
    by (simp add: initial_overall_def)
  have p: "total_pins_created ?ov =
             (\<Sum>k<length (categories cfg).
                case b k (categories cfg ! k) (max_products_per_category cfg)
                       (post_interval_seconds cfg) of
                  Inl msg \<Rightarrow> 0 | Inr r \<Rightarrow> pins_created r)"
    using process_categories_total_pins_created [of b cfg 0 "categories cfg" ?st0]
    by (simp add: initial_overall_def)
  have a: "\<forall>k<length (categories cfg).
             categories cfg ! k \<notin> set (drop (Suc k) (categories cfg)) \<longrightarrow>
             category_results ?ov (categories cfg ! k) =
               Some (case b k (categories cfg ! k) (max_products_per_category cfg)
                            (post_interval_seconds cfg) of
                       Inl msg \<Rightarrow> Category_Error msg | Inr r \<Rightarrow> Category_Result r)"
    using process_categories_entry [of _ "categories cfg" b cfg 0 ?st0] by simp
  obtain k where k: "k < length (categories cfg)" "categories cfg ! k = c"
      "c \<notin> set (drop (Suc k) (categories cfg))"
    using last_occurrence [OF assms(1)] by blast
  obtain msg where msg: "b k c (max_products_per_category cfg) (post_interval_seconds cfg) = Inl msg"
    using assms(2) k by blast
  have "category_results ?ov c = Some (Category_Error msg)"
    using a k msg by auto
  then have x: "\<exists>k msg. k < length (categories cfg) \<and> categories cfg ! k = c
                  \<and> b k c (max_products_per_category cfg) (post_interval_seconds cfg) = Inl msg
                  \<and> category_results ?ov c = Some (Category_Error msg)"
    using k msg by blast
  from r s e f p a x show ?thesis by simp
qed

theorem category_exception_is_recorded_witness:
  "status (run_automation_task (Inr example_bot) example_config example_job) = Completed
   \<and> (\<exists>ov. results (run_automation_task (Inr example_bot) example_config example_job) = Some ov
        \<and> category_results ov (ustr ''home'') = Some (Category_Error (ustr ''boom''))
        \<and> total_errors ov = 2
        \<and> total_products_found ov = 2
        \<and> total_pins_created ov = 1)"
proof -
  have h1: "ustr ''home'' \<in> set (categories example_config)"
    by (simp add: example_config_def)
  have h2: "\<forall>k<length (categories example_config).
              categories example_config ! k = ustr ''home'' \<longrightarrow>
              (\<exists>msg. example_bot k (ustr ''home'') (max_products_per_category example_config)
                        (post_interval_seconds example_config) = Inl msg)"
    by (simp add: example_bot_def)
  have n: "{..<2::nat} = {0, 1}" by auto
  from h1 h2 category_exception_is_recorded
         [where c = "ustr ''home''" and cfg = example_config and b = example_bot
            and j = example_job]
  show ?thesis
    by (auto simp: example_config_def example_bot_def ustr_def n)
qed

section \<open>No board available\<close>

lemma run_complete_automation_no_boards:
  "get_pinterest_boards (boards_reply w) = [] \<Longrightarrow>
     run_complete_automation amazon_tag w c max_products None post_interval = initial_results"
  by (simp add: run_complete_automation_def resolve_board_def truthy_def)

lemma example_run_complete_automation:
  "run_complete_automation (ustr ''tag-20'') example_world (ustr ''home'') 5 None 300
     = \<lparr>products_found = 1, pins_created = 1, errors = 0, success_rate = 100,
        created_pins = [\<lparr>product_title = Some (ustr ''Lamp''), pin_id = Some (ustr ''77''),
                         pin_url = None\<rparr>]\<rparr>"
  by (simp add: run_complete_automation_def resolve_board_def truthy_def example_world_def
        get_pinterest_boards_def get_trending_products_def accumulated_products_def
        search_terms_def trending_categories_def search_amazon_products_def
        example_catalog_def remove_duplicate_products_def py_slice_to_def
        extract_product_from_search_def example_container_def initial_results_def
        post_product_def generate_pin_content_def create_pinterest_pin_def Let_def ustr_def)

text \<open>
  Claim C8 as stated fails: with no board in the account, the job of the example ends
  with an error total of 0, and the entry of \<^verbatim>\<open>electronics\<close> is the zeroed summary, not an
  error.
\<close>

theorem no_boards_counted_as_error_counterexample:
  "map_option total_errors
     (results (run_automation_task
                 (Inr (amazon_pinterest_bot (ustr ''tag-20'') (\<lambda>k. example_world_no_boards)))
                 example_config example_job)) = Some 0
   \<and> Option.bind
       (results (run_automation_task
                   (Inr (amazon_pinterest_bot (ustr ''tag-20'') (\<lambda>k. example_world_no_boards)))
                   example_config example_job))
       (\<lambda>ov. category_results ov (ustr ''electronics''))
      = Some (Category_Result initial_results)"
  by (simp add: run_automation_task_def task_run_def Let_def example_config_def
        category_step_def amazon_pinterest_bot_def run_complete_automation_def
        resolve_board_def truthy_def example_world_no_boards_def example_world_def
        get_pinterest_boards_def initial_overall_def initial_results_def ustr_def)

text \<open>
  Claim C8, amended: when no board is available for a category \<open>c\<close> of the job (the
  boards request gives no board and none is configured), \<^verbatim>\<open>run_complete_automation\<close>
  returns the zeroed summary: the entry of \<open>c\<close> is that summary, with 0 errors and no
  error message, the category adds nothing to the error total, and the job ends
  \<^verbatim>\<open>completed\<close>.
\<close>

theorem no_boards_is_not_an_error:
  assumes "c \<in> set (categories cfg)"
    and "\<forall>k<length (categories cfg). categories cfg ! k = c \<longrightarrow>
           get_pinterest_boards (boards_reply (worlds k)) = []"
  shows "status (run_automation_task (Inr (amazon_pinterest_bot amazon_tag worlds)) cfg j)
           = Completed
       \<and> (\<exists>ov. results (run_automation_task (Inr (amazon_pinterest_bot amazon_tag worlds)) cfg j)
                  = Some ov
            \<and> category_results ov c = Some (Category_Result initial_results)
            \<and> errors initial_results = 0
            \<and> total_errors ov =
                 (\<Sum>k<length (categories cfg).
                    if categories cfg ! k = c then 0
                    else errors (run_complete_automation amazon_tag (worlds k)
                                   (categories cfg ! k) (max_products_per_category cfg) None
                                   (post_interval_seconds cfg))))"
proof -
  let ?b = "amazon_pinterest_bot amazon_tag worlds"
  let ?st0 = "put (\<lambda>j. j\<lparr>status := Running\<rparr>)
                \<lparr>cur = j, completed = 0, overall = initial_overall, attached = False,
                 writes = []\<rparr>"
  let ?ov = "overall (process_categories ?b cfg 0 (categories cfg) ?st0)"
  have r: "results (run_automation_task (Inr ?b) cfg j) = Some ?ov"
    by (rule run_automation_task_results)
  have s: "status (run_automation_task (Inr ?b) cfg j) = Completed"
    by (simp add: run_automation_task_status)
  have n: "\<And>k. k < length (categories cfg) \<Longrightarrow> categories cfg ! k = c \<Longrightarrow>
             run_complete_automation amazon_tag (worlds k) c (max_products_per_category cfg)
               None (post_interval_seconds cfg) = initial_results"
    using assms(2) run_complete_automation_no_boards by blast
  have "total_errors ?ov =
          (\<Sum>k<length (categories cfg).
             errors (run_complete_automation amazon_tag (worlds k) (categories cfg ! k)
                       (max_products_per_category cfg) None (post_interval_seconds cfg)))"
    using process_categories_total_errors [of ?b cfg 0 "categories cfg" ?st0]
    by (simp add: initial_overall_def amazon_pinterest_bot_def)
  also have "\<dots> = (\<Sum>k<length (categories cfg).
                      if categories cfg ! k = c then 0
                      else errors (run_complete_automation amazon_tag (worlds k)
                                     (categories cfg ! k) (max_products_per_category cfg) None
                                     (post_interval_seconds cfg)))"
  proof (rule sum.cong)
    show "{..<length (categories cfg)} = {..<length (categories cfg)}" by simp
  next
    fix k assume "k \<in> {..<length (categories cfg)}"
    then show "errors (run_complete_automation amazon_tag (worlds k) (categories cfg ! k)
                         (max_products_per_category cfg) None (post_interval_seconds cfg))
               = (if categories cfg ! k = c then 0
                  else errors (run_complete_automation amazon_tag (worlds k)
                                 (categories cfg ! k) (max_products_per_category cfg) None
                                 (post_interval_seconds cfg)))"
      using n [of k] by (auto simp: initial_results_def)
  qed
  finally have e: "total_errors ?ov =
          (\<Sum>k<length (categories cfg).
             if categories cfg ! k = c then 0
             else errors (run_complete_automation amazon_tag (worlds k)
                            (categories cfg ! k) (max_products_per_category cfg) None
                            (post_interval_seconds cfg)))" .
  obtain k where k: "k < length (categories cfg)" "categories cfg ! k = c"
      "c \<notin> set (drop (Suc k) (categories cfg))"
    using last_occurrence [OF assms(1)] by blast
  have "category_results ?ov (categories cfg ! k) =
          Some (case ?b (0 + k) (categories cfg ! k) (max_products_per_category cfg)
                       (post_interval_seconds cfg) of
                  Inl msg \<Rightarrow> Category_Error msg | Inr r \<Rightarrow> Category_Result r)"
    using k by (intro process_categories_entry) simp_all
  then have a: "category_results ?ov c = Some (Category_Result initial_results)"
    using k n [of k] by (simp add: amazon_pinterest_bot_def)
  have z: "errors initial_results = 0" by (simp add: initial_results_def)
  from r s e a z show ?thesis by simp
qed

theorem no_boards_is_not_an_error_witness:
  "status (run_automation_task
             (Inr (amazon_pinterest_bot (ustr ''tag-20'')
                     (\<lambda>k. if k = 0 then example_world_no_boards else example_world)))
             example_config example_job) = Completed
   \<and> (\<exists>ov. results (run_automation_task
                       (Inr (amazon_pinterest_bot (ustr ''tag-20'')
                               (\<lambda>k. if k = 0 then example_world_no_boards else example_world)))
                       example_config example_job) = Some ov
        \<and> category_results ov (ustr ''electronics'') = Some (Category_Result initial_results)
        \<and> total_errors ov = 0)"
proof -
  have h1: "ustr ''electronics'' \<in> set (categories example_config)"
    by (simp add: example_config_def)
  have h2: "\<forall>k<length (categories example_config).
              categories example_config ! k = ustr ''electronics'' \<longrightarrow>
              get_pinterest_boards
                (boards_reply (if k = 0 then example_world_no_boards else example_world)) = []"
    by (auto simp: example_config_def ustr_def example_world_no_boards_def
          get_pinterest_boards_def less_Suc_eq)
  have n: "{..<2::nat} = {0, 1}" by auto
  have c: "max_products_per_category example_config = 5"
    "post_interval_seconds example_config = 300"
    "categories example_config = [ustr ''electronics'', ustr ''home'']"
    by (simp_all add: example_config_def)
  from h1 h2 no_boards_is_not_an_error
         [where c = "ustr ''electronics''" and cfg = example_config
            and worlds = "\<lambda>k. if k = 0 then example_world_no_boards else example_world"
            and amazon_tag = "ustr ''tag-20''" and j = example_job]
  show ?thesis
    by (auto simp: c n example_run_complete_automation)
qed

end
